theory Spec2Isabelle
  imports Main
begin

section \<open>The syntax tree the analyzer reads (a subset of go/ast)\<close>

text \<open>
  The analyzer of \<^verbatim>\<open>pkg/discardedmuts/analyzer.go\<close> is one function, \<^verbatim>\<open>run\<close>,
  over the files of an \<^verbatim>\<open>analysis.Pass\<close>. Its input is a type-checked Go syntax tree.
  The tree is modelled by the datatypes below, which keep the names of go/ast. Only
  identifiers carry a position, because \<^verbatim>\<open>run\<close> reports at \<^verbatim>\<open>ident.Pos()\<close> only.
  Statement and expression forms that are not listed are outside the model.
\<close>

datatype token =
  ASSIGN | DEFINE | ADD_ASSIGN | INC | DEC | AND | SUB | NOT | ADD | MUL | EQL | LAND

datatype ident = MkIdent (NamePos: nat) (Name: string)

datatype expr =
    Ident ident
  | BasicLit string
  | FuncLit "field list" "stmt list"
  | ParenExpr expr
  | SelectorExpr expr ident
  | IndexExpr expr expr
  | CallExpr expr "expr list"
  | StarExpr expr
  | UnaryExpr token expr
  | BinaryExpr expr token expr
  | ArrayType "expr option" expr
and field = Field (Names: "ident list") (FieldType: expr)
and stmt =
    ExprStmt expr
  | IncDecStmt expr token
  | AssignStmt "expr list" token "expr list"
  | ReturnStmt "expr list"
  | BlockStmt "stmt list"
  | IfStmt "stmt option" expr "stmt list" "stmt option"
  | ForStmt "stmt option" "expr option" "stmt option" "stmt list"
  | RangeStmt "expr option" "expr option" token expr "stmt list"

text \<open>
  A function declaration has a name, the parameter fields of its type and a body; the
  body is absent (\<open>None\<close>) for a declaration without one. Its receiver and results,
  which \<^verbatim>\<open>run\<close> never reads, are left out. A \<open>GenDecl\<close> (import, const,
  type, var) is opaque: \<^verbatim>\<open>run\<close> does nothing at it. The parser puts function
  declarations in \<^verbatim>\<open>File.Decls\<close> only, so a statement cannot hold one.
\<close>

datatype decl =
    FuncDecl (FuncName: ident) (Params: "field list") (Body: "stmt list option")
  | GenDecl

datatype ast_file = File (FileName: ident) (Decls: "decl list")

datatype node =
    NFile ast_file
  | NDecl decl
  | NFuncType "field list"
  | NFieldList "field list"
  | NField field
  | NExpr expr
  | NStmt stmt

subsection \<open>ast.Inspect: the nodes in the order they are visited\<close>

text \<open>
  Every callback \<^verbatim>\<open>run\<close> passes to \<^verbatim>\<open>ast.Inspect\<close> returns true at every node, so
  the traversal is the full depth-first, pre-order walk of \<^verbatim>\<open>ast.Walk\<close>; the functions
  below list the nodes in that order, children in the order of \<^verbatim>\<open>ast.Walk\<close>. (The
  callback is also called with nil after the children of a node; every callback of
  \<^verbatim>\<open>run\<close> does nothing there.)
\<close>

fun Walk_expr :: "expr \<Rightarrow> node list"
  and Walk_exprs :: "expr list \<Rightarrow> node list"
  and Walk_field :: "field \<Rightarrow> node list"
  and Walk_fields :: "field list \<Rightarrow> node list"
  and Walk_stmt :: "stmt \<Rightarrow> node list"
  and Walk_stmts :: "stmt list \<Rightarrow> node list"
where
  "Walk_expr (Ident i) = [NExpr (Ident i)]"
| "Walk_expr (BasicLit v) = [NExpr (BasicLit v)]"
| "Walk_expr (FuncLit ps body) =
     NExpr (FuncLit ps body) # NFuncType ps # NFieldList ps # Walk_fields ps
       @ NStmt (BlockStmt body) # Walk_stmts body"
| "Walk_expr (ParenExpr x) = NExpr (ParenExpr x) # Walk_expr x"
| "Walk_expr (SelectorExpr x sel) =
     NExpr (SelectorExpr x sel) # Walk_expr x @ [NExpr (Ident sel)]"
| "Walk_expr (IndexExpr x i) = NExpr (IndexExpr x i) # Walk_expr x @ Walk_expr i"
| "Walk_expr (CallExpr f args) = NExpr (CallExpr f args) # Walk_expr f @ Walk_exprs args"
| "Walk_expr (StarExpr x) = NExpr (StarExpr x) # Walk_expr x"
| "Walk_expr (UnaryExpr op x) = NExpr (UnaryExpr op x) # Walk_expr x"
| "Walk_expr (BinaryExpr x op y) = NExpr (BinaryExpr x op y) # Walk_expr x @ Walk_expr y"
| "Walk_expr (ArrayType None elt) = NExpr (ArrayType None elt) # Walk_expr elt"
| "Walk_expr (ArrayType (Some len) elt) =
     NExpr (ArrayType (Some len) elt) # Walk_expr len @ Walk_expr elt"
| "Walk_exprs [] = []"
| "Walk_exprs (e # es) = Walk_expr e @ Walk_exprs es"
| "Walk_field (Field names t) =
     NField (Field names t) # map (\<lambda>i. NExpr (Ident i)) names @ Walk_expr t"
| "Walk_fields [] = []"
| "Walk_fields (f # fs) = Walk_field f @ Walk_fields fs"
| "Walk_stmt (ExprStmt x) = NStmt (ExprStmt x) # Walk_expr x"
| "Walk_stmt (IncDecStmt x tok) = NStmt (IncDecStmt x tok) # Walk_expr x"
| "Walk_stmt (AssignStmt lhs tok rhs) =
     NStmt (AssignStmt lhs tok rhs) # Walk_exprs lhs @ Walk_exprs rhs"
| "Walk_stmt (ReturnStmt rs) = NStmt (ReturnStmt rs) # Walk_exprs rs"
| "Walk_stmt (BlockStmt ss) = NStmt (BlockStmt ss) # Walk_stmts ss"
| "Walk_stmt (IfStmt init cond body els) =
     NStmt (IfStmt init cond body els)
       # (case init of None \<Rightarrow> [] | Some s \<Rightarrow> Walk_stmt s)
       @ Walk_expr cond
       @ NStmt (BlockStmt body) # Walk_stmts body
       @ (case els of None \<Rightarrow> [] | Some s \<Rightarrow> Walk_stmt s)"
| "Walk_stmt (ForStmt init cond post body) =
     NStmt (ForStmt init cond post body)
       # (case init of None \<Rightarrow> [] | Some s \<Rightarrow> Walk_stmt s)
       @ (case cond of None \<Rightarrow> [] | Some c \<Rightarrow> Walk_expr c)
       @ (case post of None \<Rightarrow> [] | Some s \<Rightarrow> Walk_stmt s)
       @ NStmt (BlockStmt body) # Walk_stmts body"
| "Walk_stmt (RangeStmt key val tok x body) =
     NStmt (RangeStmt key val tok x body)
       # (case key of None \<Rightarrow> [] | Some k \<Rightarrow> Walk_expr k)
       @ (case val of None \<Rightarrow> [] | Some v \<Rightarrow> Walk_expr v)
       @ Walk_expr x
       @ NStmt (BlockStmt body) # Walk_stmts body"
| "Walk_stmts [] = []"
| "Walk_stmts (s # ss) = Walk_stmt s @ Walk_stmts ss"

fun Walk_decl :: "decl \<Rightarrow> node list" where
  "Walk_decl (FuncDecl name ps body) =
     NDecl (FuncDecl name ps body) # NExpr (Ident name) # NFuncType ps # NFieldList ps
       # Walk_fields ps
       @ (case body of None \<Rightarrow> [] | Some ss \<Rightarrow> Walk_stmt (BlockStmt ss))"
| "Walk_decl GenDecl = [NDecl GenDecl]"

fun Walk_file :: "ast_file \<Rightarrow> node list" where
  "Walk_file (File name ds) =
     NFile (File name ds) # NExpr (Ident name) # concat (map Walk_decl ds)"

section \<open>Types and the type information of a pass (a subset of go/types)\<close>

text \<open>
  \<open>Named n u\<close> is a defined type with the qualified name \<open>n\<close> and the type \<open>u\<close> of its
  declaration. A value of Go's interface \<^verbatim>\<open>types.Type\<close> is a \<open>gotype option\<close>: \<open>None\<close> is
  the nil interface, which \<^verbatim>\<open>TypeOf\<close> returns for an expression it has no type for.
\<close>

datatype gotype =
    Basic string
  | Pointer gotype
  | Slice gotype
  | Array nat gotype
  | Struct "struct_field list"
  | Map gotype gotype
  | Named string gotype
and struct_field = StructField string gotype

type_synonym Type = "gotype option"

text \<open>
  An object of the type checker: the position of its declaration (which tells two
  variables of one name apart), its name and its type.
\<close>

datatype object = Var (ObjPos: nat) (ObjName: string) (ObjType: Type)

record types_info =
  Types :: "expr \<rightharpoonup> Type"
  Defs :: "ident \<rightharpoonup> object"
  Uses :: "ident \<rightharpoonup> object"

text \<open>\<^verbatim>\<open>Underlying()\<close>: a defined type gives the type under it, any other type itself.\<close>

fun Underlying :: "gotype \<Rightarrow> gotype" where
  "Underlying (Named n u) = Underlying u"
| "Underlying t = t"

text \<open>
  \<^verbatim>\<open>Info.ObjectOf\<close> looks in \<^verbatim>\<open>Defs\<close>, then in \<^verbatim>\<open>Uses\<close>; \<^verbatim>\<open>Info.TypeOf\<close> looks in
  \<^verbatim>\<open>Types\<close>, then, for an identifier, takes the type of its object, and is nil otherwise.
\<close>

definition ObjectOf :: "types_info \<Rightarrow> ident \<Rightarrow> object option" where
  "ObjectOf info i = (case Defs info i of Some obj \<Rightarrow> Some obj | None \<Rightarrow> Uses info i)"

definition TypeOf :: "types_info \<Rightarrow> expr \<Rightarrow> Type" where
  "TypeOf info e =
     (case Types info e of
        Some t \<Rightarrow> t
      | None \<Rightarrow>
          (case e of
             Ident i \<Rightarrow> (case ObjectOf info i of Some obj \<Rightarrow> ObjType obj | None \<Rightarrow> None)
           | _ \<Rightarrow> None))"

subsection \<open>Rendering: token.String, types.ExprString, types.TypeString\<close>

fun token_String :: "token \<Rightarrow> string" where
  "token_String ASSIGN = ''=''"
| "token_String DEFINE = '':=''"
| "token_String ADD_ASSIGN = ''+=''"
| "token_String INC = ''++''"
| "token_String DEC = ''--''"
| "token_String AND = ''&''"
| "token_String SUB = ''-''"
| "token_String NOT = ''!''"
| "token_String ADD = ''+''"
| "token_String MUL = ''*''"
| "token_String EQL = ''==''"
| "token_String LAND = ''&&''"

fun writeIdentList :: "ident list \<Rightarrow> string" where
  "writeIdentList [] = []"
| "writeIdentList [x] = Name x"
| "writeIdentList (x # xs) = Name x @ '', '' @ writeIdentList xs"

fun ExprString :: "expr \<Rightarrow> string"
  and writeExprList :: "expr list \<Rightarrow> string"
  and writeField :: "field \<Rightarrow> string"
  and writeFieldList :: "field list \<Rightarrow> string"
where
  "ExprString (Ident i) = Name i"
| "ExprString (BasicLit v) = v"
| "ExprString (FuncLit ps body) = ''(func('' @ writeFieldList ps @ '') literal)''"
| "ExprString (ParenExpr x) = ''('' @ ExprString x @ '')''"
| "ExprString (SelectorExpr x sel) = ExprString x @ ''.'' @ Name sel"
| "ExprString (IndexExpr x i) = ExprString x @ ''['' @ ExprString i @ '']''"
| "ExprString (CallExpr f args) = ExprString f @ ''('' @ writeExprList args @ '')''"
| "ExprString (StarExpr x) = ''*'' @ ExprString x"
| "ExprString (UnaryExpr op x) = token_String op @ ExprString x"
| "ExprString (BinaryExpr x op y) =
     ExprString x @ '' '' @ token_String op @ '' '' @ ExprString y"
| "ExprString (ArrayType None elt) = ''[]'' @ ExprString elt"
| "ExprString (ArrayType (Some len) elt) = ''['' @ ExprString len @ '']'' @ ExprString elt"
| "writeExprList [] = []"
| "writeExprList [x] = ExprString x"
| "writeExprList (x # y # ys) = ExprString x @ '', '' @ writeExprList (y # ys)"
| "writeField (Field names t) =
     writeIdentList names @ (if names \<noteq> [] then '' '' else []) @ ExprString t"
| "writeFieldList [] = []"
| "writeFieldList [f] = writeField f"
| "writeFieldList (f # g # gs) = writeField f @ '', '' @ writeFieldList (g # gs)"

function decimal :: "nat \<Rightarrow> string" where
  "decimal n =
     (if n < 10 then [''0123456789'' ! n]
      else decimal (n div 10) @ [''0123456789'' ! (n mod 10)])"
  by pat_completeness auto
termination
  by (relation "measure id") auto

fun TypeString :: "gotype \<Rightarrow> string"
  and writeStructField :: "struct_field \<Rightarrow> string"
  and writeStructFields :: "struct_field list \<Rightarrow> string"
where
  "TypeString (Basic n) = n"
| "TypeString (Pointer t) = ''*'' @ TypeString t"
| "TypeString (Slice t) = ''[]'' @ TypeString t"
| "TypeString (Array n t) = ''['' @ decimal n @ '']'' @ TypeString t"
| "TypeString (Struct fs) = ''struct{'' @ writeStructFields fs @ ''}''"
| "TypeString (Map k v) = ''map['' @ TypeString k @ '']'' @ TypeString v"
| "TypeString (Named n u) = n"
| "writeStructField (StructField n t) = n @ '' '' @ TypeString t"
| "writeStructFields [] = []"
| "writeStructFields [f] = writeStructField f"
| "writeStructFields (f # g # gs) = writeStructField f @ ''; '' @ writeStructFields (g # gs)"

section \<open>The analyzer: run\<close>

text \<open>
  A diagnostic is what \<^verbatim>\<open>pass.Reportf(pos, format, args...)\<close> appends to the sink of the
  pass: a position and the formatted message.
\<close>

datatype diagnostic = Diagnostic (DPos: nat) (Message: string)

subsection \<open>The helper functions\<close>

definition isPointer :: "Type \<Rightarrow> bool" where
  "isPointer typ = (case typ of Some (Pointer t) \<Rightarrow> True | _ \<Rightarrow> False)"

definition isSliceOrArray :: "Type \<Rightarrow> bool" where
  "isSliceOrArray typ =
     (case typ of Some (Slice t) \<Rightarrow> True | Some (Array n t) \<Rightarrow> True | _ \<Rightarrow> False)"

text \<open>\<^verbatim>\<open>getElementType\<close> is defined in the source and called nowhere.\<close>

definition getElementType :: "Type \<Rightarrow> Type" where
  "getElementType typ =
     (case typ of Some (Slice t) \<Rightarrow> Some t | Some (Array n t) \<Rightarrow> Some t | _ \<Rightarrow> None)"

subsection \<open>The parameter table\<close>

text \<open>
  \<^verbatim>\<open>paramNames[ident.Name] = obj.Type()\<close> for every name of every parameter field, in
  order. \<^verbatim>\<open>obj\<close> is \<^verbatim>\<open>ObjectOf(ident)\<close>; when that is nil the method call panics, which is
  the result \<open>None\<close>.
\<close>

fun addNames :: "types_info \<Rightarrow> ident list \<Rightarrow> (string \<rightharpoonup> Type) \<Rightarrow> (string \<rightharpoonup> Type) option" where
  "addNames info [] m = Some m"
| "addNames info (i # is) m =
     (case ObjectOf info i of
        None \<Rightarrow> None
      | Some obj \<Rightarrow> addNames info is (m(Name i \<mapsto> ObjType obj)))"

fun addParams :: "types_info \<Rightarrow> field list \<Rightarrow> (string \<rightharpoonup> Type) \<Rightarrow> (string \<rightharpoonup> Type) option" where
  "addParams info [] m = Some m"
| "addParams info (param # ps) m =
     (case addNames info (Names param) m of
        None \<Rightarrow> None
      | Some m' \<Rightarrow> addParams info ps m')"

definition paramNames :: "types_info \<Rightarrow> field list \<Rightarrow> (string \<rightharpoonup> Type) option" where
  "paramNames info ps = addParams info ps Map.empty"

subsection \<open>Case 1: assignments to value parameters\<close>

text \<open>
  The switch on the left-hand side, written twice in \<^verbatim>\<open>run\<close> (cases 1 and 2): an
  identifier, or a selector whose operand is an identifier; \<open>None\<close> is \<^verbatim>\<open>ident == nil\<close>.
\<close>

fun lhsIdent :: "expr \<Rightarrow> ident option" where
  "lhsIdent (Ident i) = Some i"
| "lhsIdent (SelectorExpr (Ident baseIdent) sel) = Some baseIdent"
| "lhsIdent _ = None"

definition msgValueParam :: "string \<Rightarrow> string" where
  "msgValueParam name =
     ''modification to '' @ [CHR 0x27] @ name @ [CHR 0x27]
       @ '' is discarded because it is passed by value; pass by reference instead''"

definition checkParamLhs :: "(string \<rightharpoonup> Type) \<Rightarrow> expr \<Rightarrow> diagnostic list" where
  "checkParamLhs table lhs =
     (case lhsIdent lhs of
        None \<Rightarrow> []
      | Some ident \<Rightarrow>
          (case table (Name ident) of
             None \<Rightarrow> []
           | Some typ \<Rightarrow>
               if \<not> isPointer typ
               then [Diagnostic (NamePos ident) (msgValueParam (Name ident))]
               else []))"

fun case1 :: "(string \<rightharpoonup> Type) \<Rightarrow> node \<Rightarrow> diagnostic list" where
  "case1 table (NStmt (AssignStmt lhs tok rhs)) = concat (map (checkParamLhs table) lhs)"
| "case1 table n = []"

subsection \<open>Case 2: assignments to the value variable of a range loop\<close>

definition msgSliceElement :: "string \<Rightarrow> string \<Rightarrow> string" where
  "msgSliceElement name sliceExpr =
     ''modification to slice element '' @ [CHR 0x27] @ name @ [CHR 0x27]
       @ '' is discarded; use index to modify directly, e.g., '' @ [CHR 0x27]
       @ ''&&'' @ sliceExpr @ ''[i] = ...'' @ [CHR 0x27]"

definition checkRangeLhs :: "ident \<Rightarrow> expr \<Rightarrow> expr \<Rightarrow> diagnostic list" where
  "checkRangeLhs ident x lhs =
     (case lhsIdent lhs of
        None \<Rightarrow> []
      | Some li \<Rightarrow>
          if Name li = Name ident
          then [Diagnostic (NamePos li) (msgSliceElement (Name ident) (ExprString x))]
          else [])"

fun rangeBodyVisit :: "ident \<Rightarrow> expr \<Rightarrow> node \<Rightarrow> diagnostic list" where
  "rangeBodyVisit ident x (NStmt (AssignStmt lhs tok rhs)) =
     concat (map (checkRangeLhs ident x) lhs)"
| "rangeBodyVisit ident x n = []"

fun case2 :: "types_info \<Rightarrow> node \<Rightarrow> diagnostic list" where
  "case2 info (NStmt (RangeStmt key (Some (Ident ident)) tok x body)) =
     (if isSliceOrArray (TypeOf info x) \<and> Name ident \<noteq> ''_''
      then concat (map (rangeBodyVisit ident x) (Walk_stmt (BlockStmt body)))
      else [])"
| "case2 info n = []"

subsection \<open>Case 3: the address of a variable passed to a call\<close>

fun callFunName :: "expr \<Rightarrow> string" where
  "callFunName (Ident fn) = Name fn"
| "callFunName (SelectorExpr x sel) = Name sel"
| "callFunName f = ''(unknown)''"

text \<open>
  The switch on the operand of \<^verbatim>\<open>&\<close>: the identifier and its type, for an identifier
  or a selector whose operand is an identifier; \<open>None\<close> is \<^verbatim>\<open>ident == nil\<close>.
\<close>

fun addrIdent :: "types_info \<Rightarrow> expr \<Rightarrow> (ident \<times> Type) option" where
  "addrIdent info (Ident i) = Some (i, TypeOf info (Ident i))"
| "addrIdent info (SelectorExpr (Ident baseIdent) sel) =
     Some (baseIdent, TypeOf info (Ident baseIdent))"
| "addrIdent info x = None"

definition msgAddrSlice :: "string \<Rightarrow> string \<Rightarrow> string" where
  "msgAddrSlice name funName =
     ''passing address of slice element '' @ [CHR 0x27] @ name @ [CHR 0x27] @ '' to ''
       @ [CHR 0x27] @ funName @ [CHR 0x27]
       @ '' will modify a copy; if you want to modify the original, pass a pointer to the element, e.g., ''
       @ [CHR 0x27] @ ''&'' @ name @ ''[i]'' @ [CHR 0x27]"

definition msgAddrStruct :: "string \<Rightarrow> string \<Rightarrow> string" where
  "msgAddrStruct name funName =
     ''passing address of struct field '' @ [CHR 0x27] @ name @ [CHR 0x27] @ '' to ''
       @ [CHR 0x27] @ funName @ [CHR 0x27]
       @ '' will modify a copy; if you want to modify the original, pass a pointer to the struct, e.g., ''
       @ [CHR 0x27] @ ''&'' @ name @ [CHR 0x27]"

definition msgAddrOther :: "string \<Rightarrow> string \<Rightarrow> string \<Rightarrow> string" where
  "msgAddrOther name typeName funName =
     ''passing address of '' @ [CHR 0x27] @ name @ [CHR 0x27] @ '' (type '' @ typeName
       @ '') to '' @ [CHR 0x27] @ funName @ [CHR 0x27]
       @ '' is passing a copy; if you want to modify the original, pass a pointer to it, e.g., ''
       @ [CHR 0x27] @ ''&'' @ name @ ''[i]'' @ [CHR 0x27]"

fun reportAddr :: "ident \<Rightarrow> string \<Rightarrow> gotype \<Rightarrow> diagnostic" where
  "reportAddr ident funName (Slice t) =
     Diagnostic (NamePos ident) (msgAddrSlice (Name ident) funName)"
| "reportAddr ident funName (Array n t) =
     Diagnostic (NamePos ident) (msgAddrSlice (Name ident) funName)"
| "reportAddr ident funName (Struct fs) =
     Diagnostic (NamePos ident) (msgAddrStruct (Name ident) funName)"
| "reportAddr ident funName underlyingType =
     Diagnostic (NamePos ident) (msgAddrOther (Name ident) (TypeString underlyingType) funName)"

fun checkArg :: "types_info \<Rightarrow> string \<Rightarrow> expr \<Rightarrow> diagnostic list" where
  "checkArg info funName (UnaryExpr op x) =
     (if op = AND
      then (case addrIdent info x of
              None \<Rightarrow> []
            | Some (ident, None) \<Rightarrow> []
            | Some (ident, Some identType) \<Rightarrow>
                [reportAddr ident funName (Underlying identType)])
      else [])"
| "checkArg info funName arg = []"

fun case3 :: "types_info \<Rightarrow> node \<Rightarrow> diagnostic list" where
  "case3 info (NExpr (CallExpr f args)) = concat (map (checkArg info (callFunName f)) args)"
| "case3 info n = []"

subsection \<open>The two traversals\<close>

text \<open>The callback of the inner \<^verbatim>\<open>ast.Inspect\<close>, at one node of a function body.\<close>

definition bodyVisit :: "(string \<rightharpoonup> Type) \<Rightarrow> types_info \<Rightarrow> node \<Rightarrow> diagnostic list" where
  "bodyVisit table info n = case1 table n @ case2 info n @ case3 info n"

text \<open>
  The callback of the outer \<^verbatim>\<open>ast.Inspect\<close>, at one node of a file: the diagnostics it
  reports, or \<open>None\<close> when it panics. It panics when a parameter has no object (see
  \<open>addNames\<close>) and when the declaration has no body: \<^verbatim>\<open>ast.Inspect(fn.Body, ...)\<close> then
  walks a nil \<^verbatim>\<open>*ast.BlockStmt\<close>, whose statement list \<^verbatim>\<open>ast.Walk\<close> reads after the
  callback has returned true for it. In both cases nothing has been reported for the
  declaration yet.
\<close>

fun fileVisit :: "types_info \<Rightarrow> node \<Rightarrow> diagnostic list option" where
  "fileVisit info (NDecl (FuncDecl name ps body)) =
     (case paramNames info ps of
        None \<Rightarrow> None
      | Some table \<Rightarrow>
          (case body of
             None \<Rightarrow> None
           | Some ss \<Rightarrow> Some (concat (map (bodyVisit table info) (Walk_stmt (BlockStmt ss))))))"
| "fileVisit info n = Some []"

text \<open>
  Visiting a list of nodes in order: the diagnostics reported, and whether a visit
  panicked. A panic ends the run; what was reported before it stays in the sink.
\<close>

fun visitNodes :: "(node \<Rightarrow> diagnostic list option) \<Rightarrow> node list \<Rightarrow> diagnostic list \<times> bool" where
  "visitNodes f [] = ([], False)"
| "visitNodes f (n # ns) =
     (case f n of
        None \<Rightarrow> ([], True)
      | Some ds \<Rightarrow> (case visitNodes f ns of (ds', panicked) \<Rightarrow> (ds @ ds', panicked)))"

record pass =
  Files :: "ast_file list"
  TypesInfo :: types_info

text \<open>
  The outcome of \<^verbatim>\<open>run\<close>: it returns \<^verbatim>\<open>(nil, err)\<close>, with \<open>None\<close> for a nil error, or it
  panics.
\<close>

datatype run_result = Return "string option" | Panic

definition run :: "pass \<Rightarrow> diagnostic list \<times> run_result" where
  "run p =
     (case visitNodes (fileVisit (TypesInfo p)) (concat (map Walk_file (Files p))) of
        (ds, panicked) \<Rightarrow> (ds, if panicked then Panic else Return None))"

section \<open>Vocabulary of the properties\<close>

text \<open>
  The identifiers that the switch on a left-hand side finds at one node, in a function
  body, in a declaration and in a pass, in traversal order. In a parsed file every
  identifier has a position of its own; the properties that count diagnostics at a position
  assume it of these identifiers.
\<close>

definition targetIdent :: "expr \<Rightarrow> ident list" where
  "targetIdent lhs = (case lhsIdent lhs of None \<Rightarrow> [] | Some i \<Rightarrow> [i])"

fun lhsIdents :: "node \<Rightarrow> ident list" where
  "lhsIdents (NStmt (AssignStmt lhs tok rhs)) = concat (map targetIdent lhs)"
| "lhsIdents n = []"

definition assignTargets :: "stmt list \<Rightarrow> ident list" where
  "assignTargets body = concat (map lhsIdents (Walk_stmt (BlockStmt body)))"

fun declTargets :: "decl \<Rightarrow> ident list" where
  "declTargets (FuncDecl name ps (Some body)) = assignTargets body"
| "declTargets d = []"

definition passTargets :: "pass \<Rightarrow> ident list" where
  "passTargets p = concat (map declTargets (concat (map Decls (Files p))))"

text \<open>
  The identifiers whose address an argument of a call takes (the switch on the operand of
  \<^verbatim>\<open>&\<close> has the shape of the one on a left-hand side), at one node, in a declaration
  and in a pass.
\<close>

fun argIdent :: "expr \<Rightarrow> ident list" where
  "argIdent (UnaryExpr op x) = (if op = AND then targetIdent x else [])"
| "argIdent arg = []"

fun addrIdents :: "node \<Rightarrow> ident list" where
  "addrIdents (NExpr (CallExpr f args)) = concat (map argIdent args)"
| "addrIdents n = []"

fun declAddrs :: "decl \<Rightarrow> ident list" where
  "declAddrs (FuncDecl name ps (Some body)) = concat (map addrIdents (Walk_stmt (BlockStmt body)))"
| "declAddrs d = []"

definition passAddrs :: "pass \<Rightarrow> ident list" where
  "passAddrs p = concat (map declAddrs (concat (map Decls (Files p))))"

text \<open>
  The range loops that case 2 inspects: those whose value variable is an identifier other
  than \<open>_\<close> and whose expression has a slice or array type, each as its value variable,
  its expression and its body; at one node, in a declaration and in a pass, in traversal
  order. A loop nested in another is an entry of its own.
\<close>

fun nodeLoops :: "types_info \<Rightarrow> node \<Rightarrow> (ident \<times> expr \<times> stmt list) list" where
  "nodeLoops info (NStmt (RangeStmt key (Some (Ident ident)) tok x body)) =
     (if isSliceOrArray (TypeOf info x) \<and> Name ident \<noteq> ''_'' then [(ident, x, body)] else [])"
| "nodeLoops info n = []"

fun declLoops :: "types_info \<Rightarrow> decl \<Rightarrow> (ident \<times> expr \<times> stmt list) list" where
  "declLoops info (FuncDecl name ps (Some body)) =
     concat (map (nodeLoops info) (Walk_stmt (BlockStmt body)))"
| "declLoops info d = []"

definition passLoops :: "pass \<Rightarrow> (ident \<times> expr \<times> stmt list) list" where
  "passLoops p = concat (map (declLoops (TypesInfo p)) (concat (map Decls (Files p))))"

text \<open>
  A loop accounts for a diagnostic when the message is the loop's and the position is
  that of a left-hand-side identifier in the loop's body that bears the name of the loop
  variable.
\<close>

fun loopReports :: "diagnostic \<Rightarrow> ident \<times> expr \<times> stmt list \<Rightarrow> bool" where
  "loopReports d (v, x, body) =
     (Message d = msgSliceElement (Name v) (ExprString x) \<and>
      (\<exists>li \<in> set (assignTargets body). Name li = Name v \<and> NamePos li = DPos d))"

text \<open>
  What the three detectors report for one declaration, run once over its body with the
  table of its own parameters (nothing where the callback panics).
\<close>

fun declDiags :: "types_info \<Rightarrow> decl \<Rightarrow> diagnostic list" where
  "declDiags info (FuncDecl name ps (Some body)) =
     (case paramNames info ps of
        None \<Rightarrow> []
      | Some table \<Rightarrow> concat (map (bodyVisit table info) (Walk_stmt (BlockStmt body))))"
| "declDiags info d = []"

section \<open>Example programs\<close>

text \<open>
  The types of the repository's test package:
  \<^verbatim>\<open>type Collectable struct { checked bool }\<close> and
  \<^verbatim>\<open>type TestStruct struct { Name string; collectables []Collectable }\<close>.
\<close>

definition tCollectable :: gotype where
  "tCollectable = Named ''a.Collectable'' (Struct [StructField ''checked'' (Basic ''bool'')])"

definition tTestStruct :: gotype where
  "tTestStruct =
     Named ''a.TestStruct''
       (Struct [StructField ''Name'' (Basic ''string''),
                StructField ''collectables'' (Slice tCollectable)])"

text \<open>\<^verbatim>\<open>func something(ts TestStruct) { ts.Name = 1 }\<close>\<close>

definition valueParamParams :: "field list" where
  "valueParamParams = [Field [MkIdent 30 ''ts''] (Ident (MkIdent 33 ''TestStruct''))]"

definition valueParamBody :: "stmt list" where
  "valueParamBody =
     [AssignStmt [SelectorExpr (Ident (MkIdent 50 ''ts'')) (MkIdent 53 ''Name'')]
        ASSIGN [BasicLit ''1'']]"

definition valueParamFile :: ast_file where
  "valueParamFile =
     File (MkIdent 9 ''a'')
       [GenDecl, FuncDecl (MkIdent 20 ''something'') valueParamParams (Some valueParamBody)]"

definition passValueParam :: pass where
  "passValueParam =
     \<lparr>Files = [valueParamFile],
      TypesInfo =
        \<lparr>Types = Map.empty,
         Defs = [MkIdent 30 ''ts'' \<mapsto> Var 30 ''ts'' (Some tTestStruct)],
         Uses = [MkIdent 50 ''ts'' \<mapsto> Var 30 ''ts'' (Some tTestStruct)]\<rparr>\<rparr>"

text \<open>
  \<^verbatim>\<open>type Outer struct { inner TestStruct }\<close> and
  \<^verbatim>\<open>func deep(o Outer) { o.inner.Name = 1 }\<close>
\<close>

definition tOuter :: gotype where
  "tOuter = Named ''a.Outer'' (Struct [StructField ''inner'' tTestStruct])"

definition passDeepField :: pass where
  "passDeepField =
     \<lparr>Files = [File (MkIdent 9 ''a'')
        [FuncDecl (MkIdent 20 ''deep'')
           [Field [MkIdent 30 ''o''] (Ident (MkIdent 32 ''Outer''))]
           (Some [AssignStmt
                    [SelectorExpr (SelectorExpr (Ident (MkIdent 50 ''o'')) (MkIdent 52 ''inner''))
                       (MkIdent 58 ''Name'')]
                    ASSIGN [BasicLit ''1'']])]],
      TypesInfo =
        \<lparr>Types = Map.empty,
         Defs = [MkIdent 30 ''o'' \<mapsto> Var 30 ''o'' (Some tOuter)],
         Uses = [MkIdent 50 ''o'' \<mapsto> Var 30 ''o'' (Some tOuter)]\<rparr>\<rparr>"

text \<open>\<^verbatim>\<open>func deepAddr(o Outer) { g(&o.inner.Name) }\<close>\<close>

definition passDeepAddress :: pass where
  "passDeepAddress =
     \<lparr>Files = [File (MkIdent 9 ''a'')
        [FuncDecl (MkIdent 20 ''deepAddr'')
           [Field [MkIdent 30 ''o''] (Ident (MkIdent 32 ''Outer''))]
           (Some [ExprStmt
                    (CallExpr (Ident (MkIdent 45 ''g''))
                       [UnaryExpr AND
                          (SelectorExpr
                             (SelectorExpr (Ident (MkIdent 48 ''o'')) (MkIdent 50 ''inner''))
                             (MkIdent 56 ''Name''))])])]],
      TypesInfo =
        \<lparr>Types = Map.empty,
         Defs = [MkIdent 30 ''o'' \<mapsto> Var 30 ''o'' (Some tOuter)],
         Uses = [MkIdent 48 ''o'' \<mapsto> Var 30 ''o'' (Some tOuter)]\<rparr>\<rparr>"

text \<open>
  \<^verbatim>\<open>func both(c Collectable, s []Collectable) {
    for _, c = range s { c.checked = true } }\<close>: the loop assigns each element to the
  parameter \<open>c\<close> (\<^verbatim>\<open>=\<close>, not \<^verbatim>\<open>:=\<close>).
\<close>

definition passParamInRange :: pass where
  "passParamInRange =
     \<lparr>Files = [File (MkIdent 9 ''a'')
        [FuncDecl (MkIdent 20 ''both'')
           [Field [MkIdent 25 ''c''] (Ident (MkIdent 27 ''Collectable'')),
            Field [MkIdent 40 ''s''] (ArrayType None (Ident (MkIdent 44 ''Collectable'')))]
           (Some [RangeStmt (Some (Ident (MkIdent 64 ''_''))) (Some (Ident (MkIdent 67 ''c'')))
                    ASSIGN (Ident (MkIdent 77 ''s''))
                    [AssignStmt
                       [SelectorExpr (Ident (MkIdent 81 ''c'')) (MkIdent 83 ''checked'')]
                       ASSIGN [Ident (MkIdent 93 ''true'')]]])]],
      TypesInfo =
        \<lparr>Types = Map.empty,
         Defs = [MkIdent 25 ''c'' \<mapsto> Var 25 ''c'' (Some tCollectable),
                 MkIdent 40 ''s'' \<mapsto> Var 40 ''s'' (Some (Slice tCollectable))],
         Uses = [MkIdent 67 ''c'' \<mapsto> Var 25 ''c'' (Some tCollectable),
                 MkIdent 77 ''s'' \<mapsto> Var 40 ''s'' (Some (Slice tCollectable)),
                 MkIdent 81 ''c'' \<mapsto> Var 25 ''c'' (Some tCollectable)]\<rparr>\<rparr>"

text \<open>
  \<^verbatim>\<open>func somethingElse(ts *TestStruct) {
    for _, c := range ts.collectables { c.checked = true } }\<close>
\<close>

definition rangeOverField :: stmt where
  "rangeOverField =
     RangeStmt (Some (Ident (MkIdent 44 ''_''))) (Some (Ident (MkIdent 47 ''c''))) DEFINE
       (SelectorExpr (Ident (MkIdent 58 ''ts'')) (MkIdent 61 ''collectables''))
       [AssignStmt [SelectorExpr (Ident (MkIdent 80 ''c'')) (MkIdent 82 ''checked'')]
          ASSIGN [Ident (MkIdent 92 ''true'')]]"

definition rangeParams :: "field list" where
  "rangeParams = [Field [MkIdent 34 ''ts''] (StarExpr (Ident (MkIdent 38 ''TestStruct'')))]"

definition rangeFile :: ast_file where
  "rangeFile =
     File (MkIdent 9 ''a'')
       [FuncDecl (MkIdent 20 ''somethingElse'') rangeParams (Some [rangeOverField])]"

definition passRange :: pass where
  "passRange =
     \<lparr>Files = [rangeFile],
      TypesInfo =
        \<lparr>Types =
           [SelectorExpr (Ident (MkIdent 58 ''ts'')) (MkIdent 61 ''collectables'')
              \<mapsto> Some (Slice tCollectable)],
         Defs = [MkIdent 34 ''ts'' \<mapsto> Var 34 ''ts'' (Some (Pointer tTestStruct)),
                 MkIdent 47 ''c'' \<mapsto> Var 47 ''c'' (Some tCollectable)],
         Uses = [MkIdent 58 ''ts'' \<mapsto> Var 34 ''ts'' (Some (Pointer tTestStruct)),
                 MkIdent 80 ''c'' \<mapsto> Var 47 ''c'' (Some tCollectable)]\<rparr>\<rparr>"

text \<open>
  \<^verbatim>\<open>func twice(s []Collectable) {
    for _, c := range s { for _, c := range s { c.checked = true } } }\<close>
\<close>

definition passNestedRange :: pass where
  "passNestedRange =
     \<lparr>Files = [File (MkIdent 9 ''a'')
        [FuncDecl (MkIdent 20 ''twice'')
           [Field [MkIdent 26 ''s''] (ArrayType None (Ident (MkIdent 30 ''Collectable'')))]
           (Some [RangeStmt (Some (Ident (MkIdent 50 ''_''))) (Some (Ident (MkIdent 53 ''c'')))
                    DEFINE (Ident (MkIdent 64 ''s''))
                    [RangeStmt (Some (Ident (MkIdent 74 ''_'')))
                       (Some (Ident (MkIdent 77 ''c''))) DEFINE (Ident (MkIdent 88 ''s''))
                       [AssignStmt
                          [SelectorExpr (Ident (MkIdent 96 ''c'')) (MkIdent 98 ''checked'')]
                          ASSIGN [Ident (MkIdent 108 ''true'')]]]])]],
      TypesInfo =
        \<lparr>Types = Map.empty,
         Defs = [MkIdent 26 ''s'' \<mapsto> Var 26 ''s'' (Some (Slice tCollectable)),
                 MkIdent 53 ''c'' \<mapsto> Var 53 ''c'' (Some tCollectable),
                 MkIdent 77 ''c'' \<mapsto> Var 77 ''c'' (Some tCollectable)],
         Uses = [MkIdent 64 ''s'' \<mapsto> Var 26 ''s'' (Some (Slice tCollectable)),
                 MkIdent 88 ''s'' \<mapsto> Var 26 ''s'' (Some (Slice tCollectable)),
                 MkIdent 96 ''c'' \<mapsto> Var 77 ''c'' (Some tCollectable)]\<rparr>\<rparr>"

text \<open>
  \<^verbatim>\<open>func modifySlice(ts *TestStruct) {
    for _, c := range ts.collectables { SetChecked(&c, true) } }\<close>
\<close>

definition addressParams :: "field list" where
  "addressParams = [Field [MkIdent 32 ''ts''] (StarExpr (Ident (MkIdent 36 ''TestStruct'')))]"

definition addressBody :: "stmt list" where
  "addressBody =
     [RangeStmt (Some (Ident (MkIdent 54 ''_''))) (Some (Ident (MkIdent 57 ''c''))) DEFINE
        (SelectorExpr (Ident (MkIdent 68 ''ts'')) (MkIdent 71 ''collectables''))
        [ExprStmt
           (CallExpr (Ident (MkIdent 88 ''SetChecked''))
              [UnaryExpr AND (Ident (MkIdent 100 ''c'')), Ident (MkIdent 103 ''true'')])]]"

definition addressFile :: ast_file where
  "addressFile =
     File (MkIdent 9 ''a'')
       [FuncDecl (MkIdent 20 ''modifySlice'') addressParams (Some addressBody)]"

definition passAddress :: pass where
  "passAddress =
     \<lparr>Files = [addressFile],
      TypesInfo =
        \<lparr>Types =
           [SelectorExpr (Ident (MkIdent 68 ''ts'')) (MkIdent 71 ''collectables'')
              \<mapsto> Some (Slice tCollectable)],
         Defs = [MkIdent 32 ''ts'' \<mapsto> Var 32 ''ts'' (Some (Pointer tTestStruct)),
                 MkIdent 57 ''c'' \<mapsto> Var 57 ''c'' (Some tCollectable)],
         Uses = [MkIdent 68 ''ts'' \<mapsto> Var 32 ''ts'' (Some (Pointer tTestStruct)),
                 MkIdent 100 ''c'' \<mapsto> Var 57 ''c'' (Some tCollectable)]\<rparr>\<rparr>"

text \<open>\<^verbatim>\<open>func first(p [3]int) { p[0] = 1 }\<close>\<close>

definition passIndex :: pass where
  "passIndex =
     \<lparr>Files = [File (MkIdent 9 ''a'')
        [FuncDecl (MkIdent 20 ''first'')
           [Field [MkIdent 26 ''p'']
              (ArrayType (Some (BasicLit ''3'')) (Ident (MkIdent 31 ''int'')))]
           (Some [AssignStmt [IndexExpr (Ident (MkIdent 40 ''p'')) (BasicLit ''0'')]
                    ASSIGN [BasicLit ''1'']])]],
      TypesInfo =
        \<lparr>Types = Map.empty,
         Defs = [MkIdent 26 ''p'' \<mapsto> Var 26 ''p'' (Some (Array 3 (Basic ''int'')))],
         Uses = [MkIdent 40 ''p'' \<mapsto> Var 26 ''p'' (Some (Array 3 (Basic ''int'')))]\<rparr>\<rparr>"

text \<open>
  \<^verbatim>\<open>type Ref *TestStruct\<close> and \<^verbatim>\<open>func rename(p Ref) { p.Name = 1 }\<close>: the
  parameter's type is a defined type whose underlying type is a pointer.
\<close>

definition passNamedPointer :: pass where
  "passNamedPointer =
     \<lparr>Files = [File (MkIdent 9 ''a'')
        [FuncDecl (MkIdent 20 ''rename'')
           [Field [MkIdent 27 ''p''] (Ident (MkIdent 29 ''Ref''))]
           (Some [AssignStmt [SelectorExpr (Ident (MkIdent 40 ''p'')) (MkIdent 42 ''Name'')]
                    ASSIGN [BasicLit ''1'']])]],
      TypesInfo =
        \<lparr>Types = Map.empty,
         Defs = [MkIdent 27 ''p'' \<mapsto> Var 27 ''p'' (Some (Named ''a.Ref'' (Pointer tTestStruct)))],
         Uses = [MkIdent 40 ''p'' \<mapsto> Var 27 ''p'' (Some (Named ''a.Ref'' (Pointer tTestStruct)))]\<rparr>\<rparr>"

text \<open>The same function with the parameter declared \<^verbatim>\<open>p *TestStruct\<close>.\<close>

definition passPointer :: pass where
  "passPointer =
     \<lparr>Files = [File (MkIdent 9 ''a'')
        [FuncDecl (MkIdent 20 ''rename'')
           [Field [MkIdent 27 ''p''] (StarExpr (Ident (MkIdent 30 ''TestStruct'')))]
           (Some [AssignStmt [SelectorExpr (Ident (MkIdent 45 ''p'')) (MkIdent 47 ''Name'')]
                    ASSIGN [BasicLit ''1''],
                  AssignStmt [StarExpr (Ident (MkIdent 61 ''p''))]
                    ASSIGN [Ident (MkIdent 65 ''zero'')]])]],
      TypesInfo =
        \<lparr>Types = Map.empty,
         Defs = [MkIdent 27 ''p'' \<mapsto> Var 27 ''p'' (Some (Pointer tTestStruct))],
         Uses = [MkIdent 45 ''p'' \<mapsto> Var 27 ''p'' (Some (Pointer tTestStruct)),
                 MkIdent 61 ''p'' \<mapsto> Var 27 ''p'' (Some (Pointer tTestStruct))]\<rparr>\<rparr>"

text \<open>
  \<^verbatim>\<open>type Items []Collectable\<close> and
  \<^verbatim>\<open>func checkAll(items *Holder) { for _, c := range items.all { c.checked = true } }\<close>,
  where the field \<^verbatim>\<open>all\<close> has the type \<^verbatim>\<open>Items\<close>; then the same loop with the field
  declared \<^verbatim>\<open>[]Collectable\<close>.
\<close>

definition rangeOverItems :: stmt where
  "rangeOverItems =
     RangeStmt (Some (Ident (MkIdent 44 ''_''))) (Some (Ident (MkIdent 47 ''c''))) DEFINE
       (SelectorExpr (Ident (MkIdent 58 ''items'')) (MkIdent 64 ''all''))
       [AssignStmt [SelectorExpr (Ident (MkIdent 80 ''c'')) (MkIdent 82 ''checked'')]
          ASSIGN [Ident (MkIdent 92 ''true'')]]"

definition passItems :: "gotype \<Rightarrow> pass" where
  "passItems t =
     \<lparr>Files = [File (MkIdent 9 ''a'')
        [FuncDecl (MkIdent 20 ''checkAll'')
           [Field [MkIdent 29 ''items''] (StarExpr (Ident (MkIdent 36 ''Holder'')))]
           (Some [rangeOverItems])]],
      TypesInfo =
        \<lparr>Types =
           [SelectorExpr (Ident (MkIdent 58 ''items'')) (MkIdent 64 ''all'') \<mapsto> Some t],
         Defs = [MkIdent 29 ''items''
                   \<mapsto> Var 29 ''items''
                        (Some (Pointer (Named ''a.Holder'' (Struct [StructField ''all'' t])))),
                 MkIdent 47 ''c'' \<mapsto> Var 47 ''c'' (Some tCollectable)],
         Uses = [MkIdent 58 ''items''
                   \<mapsto> Var 29 ''items''
                        (Some (Pointer (Named ''a.Holder'' (Struct [StructField ''all'' t])))),
                 MkIdent 80 ''c'' \<mapsto> Var 47 ''c'' (Some tCollectable)]\<rparr>\<rparr>"

text \<open>
  \<^verbatim>\<open>func outer() { g := func(p TestStruct) { p.Name = 1 } }\<close>: the by-value
  parameter belongs to a function literal.
\<close>

definition closureParams :: "field list" where
  "closureParams = [Field [MkIdent 45 ''p''] (Ident (MkIdent 47 ''TestStruct''))]"

definition closureBody :: "stmt list" where
  "closureBody =
     [AssignStmt [SelectorExpr (Ident (MkIdent 60 ''p'')) (MkIdent 62 ''Name'')]
        ASSIGN [BasicLit ''1'']]"

definition outerBody :: "stmt list" where
  "outerBody = [AssignStmt [Ident (MkIdent 35 ''g'')] DEFINE [FuncLit closureParams closureBody]]"

definition closureFile :: ast_file where
  "closureFile =
     File (MkIdent 9 ''a'') [GenDecl, FuncDecl (MkIdent 20 ''outer'') [] (Some outerBody)]"

definition passClosure :: pass where
  "passClosure =
     \<lparr>Files = [closureFile],
      TypesInfo =
        \<lparr>Types = Map.empty,
         Defs = [MkIdent 45 ''p'' \<mapsto> Var 45 ''p'' (Some tTestStruct)],
         Uses = [MkIdent 60 ''p'' \<mapsto> Var 45 ''p'' (Some tTestStruct)]\<rparr>\<rparr>"

text \<open>
  \<^verbatim>\<open>func broken() { g(&v) }\<close> with no type information for \<^verbatim>\<open>v\<close> (nor for anything
  else).
\<close>

definition passUnresolved :: pass where
  "passUnresolved =
     \<lparr>Files = [File (MkIdent 9 ''a'')
        [FuncDecl (MkIdent 20 ''broken'') []
           (Some [ExprStmt
                    (CallExpr (Ident (MkIdent 40 ''g''))
                       [UnaryExpr AND (Ident (MkIdent 43 ''v''))])])]],
      TypesInfo = \<lparr>Types = Map.empty, Defs = Map.empty, Uses = Map.empty\<rparr>\<rparr>"

text \<open>
  \<^verbatim>\<open>func shadow(s []Collectable, other Collectable) {
    for _, c := range s { c := other; c.checked = true } }\<close>: inside the loop body,
  \<^verbatim>\<open>c\<close> is a new variable that shadows the loop variable.
\<close>

definition shadowLoop :: stmt where
  "shadowLoop =
     RangeStmt (Some (Ident (MkIdent 60 ''_''))) (Some (Ident (MkIdent 63 ''c''))) DEFINE
       (Ident (MkIdent 74 ''s''))
       [AssignStmt [Ident (MkIdent 80 ''c'')] DEFINE [Ident (MkIdent 85 ''other'')],
        AssignStmt [SelectorExpr (Ident (MkIdent 92 ''c'')) (MkIdent 94 ''checked'')]
          ASSIGN [Ident (MkIdent 104 ''true'')]]"

definition shadowParams :: "field list" where
  "shadowParams =
     [Field [MkIdent 27 ''s''] (ArrayType None (Ident (MkIdent 31 ''Collectable''))),
      Field [MkIdent 44 ''other''] (Ident (MkIdent 50 ''Collectable''))]"

definition shadowFile :: ast_file where
  "shadowFile =
     File (MkIdent 9 ''a'') [FuncDecl (MkIdent 20 ''shadow'') shadowParams (Some [shadowLoop])]"

definition passShadow :: pass where
  "passShadow =
     \<lparr>Files = [shadowFile],
      TypesInfo =
        \<lparr>Types = Map.empty,
         Defs = [MkIdent 27 ''s'' \<mapsto> Var 27 ''s'' (Some (Slice tCollectable)),
                 MkIdent 44 ''other'' \<mapsto> Var 44 ''other'' (Some tCollectable),
                 MkIdent 63 ''c'' \<mapsto> Var 63 ''c'' (Some tCollectable),
                 MkIdent 80 ''c'' \<mapsto> Var 80 ''c'' (Some tCollectable)],
         Uses = [MkIdent 74 ''s'' \<mapsto> Var 27 ''s'' (Some (Slice tCollectable)),
                 MkIdent 85 ''other'' \<mapsto> Var 44 ''other'' (Some tCollectable),
                 MkIdent 92 ''c'' \<mapsto> Var 80 ''c'' (Some tCollectable)]\<rparr>\<rparr>"

section \<open>The traversal of a pass\<close>

lemma visitNodes_append:
  "visitNodes f (xs @ ys) =
     (case visitNodes f xs of
        (ds, panicked) \<Rightarrow>
          if panicked then (ds, True)
          else (case visitNodes f ys of (ds', b) \<Rightarrow> (ds @ ds', b)))"
  by (induction xs) (auto split: option.splits prod.splits)

lemma visitNodes_tail:
  "visitNodes f ys = visitNodes f ys' \<Longrightarrow> visitNodes f (xs @ ys) = visitNodes f (xs @ ys')"
  by (induction xs) (auto split: option.splits prod.splits)

lemma visitNodes_silent:
  "(\<And>n. n \<in> set ns \<Longrightarrow> f n = Some []) \<Longrightarrow> visitNodes f ns = ([], False)"
  by (induction ns) auto

text \<open>No declaration node lies below a declaration.\<close>

lemma Walk_no_decl:
  "NDecl d \<notin> set (Walk_expr e)"
  "NDecl d \<notin> set (Walk_exprs es)"
  "NDecl d \<notin> set (Walk_field fl)"
  "NDecl d \<notin> set (Walk_fields fls)"
  "NDecl d \<notin> set (Walk_stmt s)"
  "NDecl d \<notin> set (Walk_stmts ss)"
  by (induction e and es and fl and fls and s and ss
      rule: Walk_expr_Walk_exprs_Walk_field_Walk_fields_Walk_stmt_Walk_stmts.induct)
     (auto split: option.splits)

lemma fileVisit_not_decl: "(\<And>d. n \<noteq> NDecl d) \<Longrightarrow> fileVisit info n = Some []"
  by (cases n) auto

lemma visitNodes_Walk_decl:
  "visitNodes (fileVisit info) (Walk_decl d @ ns) = visitNodes (fileVisit info) (NDecl d # ns)"
proof (cases d)
  case (FuncDecl name ps body)
  let ?rest = "NExpr (Ident name) # NFuncType ps # NFieldList ps # Walk_fields ps
       @ (case body of None \<Rightarrow> [] | Some ss \<Rightarrow> Walk_stmt (BlockStmt ss))"
  have "\<And>n. n \<in> set ?rest \<Longrightarrow> fileVisit info n = Some []"
    using Walk_no_decl by (intro fileVisit_not_decl) (auto split: option.splits)
  then have silent: "visitNodes (fileVisit info) ?rest = ([], False)"
    by (rule visitNodes_silent)
  have "Walk_decl d @ ns = [NDecl d] @ ?rest @ ns"
    using FuncDecl by simp
  then show ?thesis
    by (simp only: visitNodes_append silent) (simp split: option.splits prod.splits)
next
  case GenDecl
  then show ?thesis by simp
qed

lemma visitNodes_Walk_decls:
  "visitNodes (fileVisit info) (concat (map Walk_decl ds) @ ns) =
   visitNodes (fileVisit info) (map NDecl ds @ ns)"
proof (induction ds)
  case Nil
  then show ?case by simp
next
  case (Cons d ds)
  have "visitNodes (fileVisit info) (concat (map Walk_decl (d # ds)) @ ns) =
        visitNodes (fileVisit info) (NDecl d # concat (map Walk_decl ds) @ ns)"
    using visitNodes_Walk_decl [of info d "concat (map Walk_decl ds) @ ns"] by simp
  also have "\<dots> = visitNodes (fileVisit info) ([NDecl d] @ concat (map Walk_decl ds) @ ns)"
    by simp
  also have "\<dots> = visitNodes (fileVisit info) ([NDecl d] @ map NDecl ds @ ns)"
    using Cons.IH by (rule visitNodes_tail)
  finally show ?case by simp
qed

lemma visitNodes_Walk_files:
  "visitNodes (fileVisit info) (concat (map Walk_file fs)) =
   visitNodes (fileVisit info) (map NDecl (concat (map Decls fs)))"
proof (induction fs)
  case Nil
  then show ?case by simp
next
  case (Cons f fs)
  obtain name ds where f: "f = File name ds" by (cases f)
  have "visitNodes (fileVisit info) (concat (map Walk_file (f # fs))) =
        visitNodes (fileVisit info) (concat (map Walk_decl ds) @ concat (map Walk_file fs))"
    by (simp add: f)
  also have "\<dots> = visitNodes (fileVisit info) (map NDecl ds @ concat (map Walk_file fs))"
    by (rule visitNodes_Walk_decls)
  also have "\<dots> = visitNodes (fileVisit info) (map NDecl ds @ map NDecl (concat (map Decls fs)))"
    using Cons.IH by (rule visitNodes_tail)
  finally show ?case by (simp add: f)
qed

text \<open>
  So a run is the visit of the declarations of its files, in order; when it returns,
  every visit has reported its diagnostics.
\<close>

lemma run_decls:
  "run p =
     (case visitNodes (fileVisit (TypesInfo p)) (map NDecl (concat (map Decls (Files p)))) of
        (ds, panicked) \<Rightarrow> (ds, if panicked then Panic else Return None))"
  by (simp add: run_def visitNodes_Walk_files)

lemma visitNodes_reported:
  "visitNodes f ns = (ds, False) \<Longrightarrow> n \<in> set ns \<Longrightarrow> \<exists>xs. f n = Some xs \<and> set xs \<subseteq> set ds"
  by (induction ns arbitrary: ds) (auto split: option.splits prod.splits)

lemma fileVisit_FuncDecl:
  "fileVisit info (NDecl (FuncDecl name ps (Some body))) = Some xs \<Longrightarrow>
   \<exists>table. paramNames info ps = Some table \<and>
     xs = concat (map (bodyVisit table info) (Walk_stmt (BlockStmt body)))"
  by (simp del: Walk_expr.simps split: option.splits)

lemma run_reported:
  assumes "run p = (ds, Return err)"
    and "f \<in> set (Files p)"
    and "FuncDecl name ps (Some body) \<in> set (Decls f)"
  shows "\<exists>table. paramNames (TypesInfo p) ps = Some table \<and>
           (\<forall>n \<in> set (Walk_stmt (BlockStmt body)).
              set (bodyVisit table (TypesInfo p) n) \<subseteq> set ds)"
proof -
  let ?ns = "map NDecl (concat (map Decls (Files p)))"
  have "visitNodes (fileVisit (TypesInfo p)) ?ns = (ds, False)"
    using assms(1) by (auto simp: run_decls split: prod.splits if_splits)
  moreover have "NDecl (FuncDecl name ps (Some body)) \<in> set ?ns"
    using assms(2,3) by auto
  ultimately obtain xs where
    xs: "fileVisit (TypesInfo p) (NDecl (FuncDecl name ps (Some body))) = Some xs"
        "set xs \<subseteq> set ds"
    using visitNodes_reported by blast
  from fileVisit_FuncDecl [OF xs(1)] obtain table where
    "paramNames (TypesInfo p) ps = Some table"
    "xs = concat (map (bodyVisit table (TypesInfo p)) (Walk_stmt (BlockStmt body)))"
    by blast
  with xs(2) show ?thesis
    by (auto simp del: Walk_expr.simps)
qed

lemma run_body_reported:
  assumes "run p = (ds, Return err)"
    and "f \<in> set (Files p)"
    and "FuncDecl name ps (Some body) \<in> set (Decls f)"
    and "paramNames (TypesInfo p) ps = Some table"
    and "n \<in> set (Walk_stmt (BlockStmt body))"
    and "d \<in> set (bodyVisit table (TypesInfo p) n)"
  shows "d \<in> set ds"
  using run_reported [OF assms(1,2,3)] assms(4,5,6) by auto




section \<open>Diagnostics at a position\<close>

text \<open>The definitions that evaluating \<^verbatim>\<open>run\<close> on a concrete pass unfolds.\<close>

lemmas evs = run_def paramNames_def ObjectOf_def TypeOf_def bodyVisit_def checkParamLhs_def
  checkRangeLhs_def isPointer_def isSliceOrArray_def

text \<open>
  A diagnostic of case 1 at a position comes from a left-hand side whose identifier
  stands at that position; the messages of cases 2 and 3 differ from those of case 1.
\<close>

lemma distinct_count_le_1: "distinct xs \<Longrightarrow> count_list xs x \<le> 1"
  by (induction xs) auto

lemma count_concat_le:
  assumes "\<And>x. x \<in> set xs \<Longrightarrow> count_list (f x) d \<le> count_list (g x) q"
  shows "count_list (concat (map f xs)) d \<le> count_list (concat (map g xs)) q"
  using assms by (induction xs) (auto intro: add_mono)

lemma checkParamLhs_count:
  "count_list (checkParamLhs table l) (Diagnostic q m) \<le> count_list (map NamePos (targetIdent l)) q"
  by (auto simp: checkParamLhs_def targetIdent_def split: option.splits)

lemma case1_count:
  "count_list (case1 table n) (Diagnostic q m) \<le> count_list (map NamePos (lhsIdents n)) q"
proof (cases "(table, n)" rule: case1.cases)
  case (1 table' lhs tok rhs)
  have "count_list (concat (map (checkParamLhs table) lhs)) (Diagnostic q m)
          \<le> count_list (concat (map (\<lambda>l. map NamePos (targetIdent l)) lhs)) q"
    by (rule count_concat_le) (rule checkParamLhs_count)
  with 1 show ?thesis
    by (simp add: map_concat comp_def)
qed simp_all

lemma checkRangeLhs_message:
  "d \<in> set (checkRangeLhs v x l) \<Longrightarrow> Message d = msgSliceElement (Name v) (ExprString x)"
  by (auto simp: checkRangeLhs_def split: option.splits if_splits)

lemma rangeBodyVisit_message:
  "d \<in> set (rangeBodyVisit v x n) \<Longrightarrow> Message d = msgSliceElement (Name v) (ExprString x)"
  by (cases "(v, x, n)" rule: rangeBodyVisit.cases) (auto dest: checkRangeLhs_message)

lemma case2_message:
  "d \<in> set (case2 info n) \<Longrightarrow> \<exists>a b. Message d = msgSliceElement a b"
  by (cases "(info, n)" rule: case2.cases)
     (auto simp del: Walk_expr.simps dest: rangeBodyVisit_message split: if_splits)

lemma msg_value_not_slice: "msgValueParam a \<noteq> msgSliceElement b c"
  by (simp add: msgValueParam_def msgSliceElement_def)

lemma reportAddr_message: "Message (reportAddr i f t) \<noteq> msgValueParam nm"
  by (cases t) (simp_all add: msgValueParam_def msgAddrSlice_def msgAddrStruct_def msgAddrOther_def)

lemma checkArg_AND:
  "checkArg info f (UnaryExpr AND x) =
     (case addrIdent info x of
        None \<Rightarrow> []
      | Some (ident, None) \<Rightarrow> []
      | Some (ident, Some identType) \<Rightarrow> [reportAddr ident f (Underlying identType)])"
  by simp

lemma checkArg_message:
  assumes "d \<in> set (checkArg info f a)"
  shows "Message d \<noteq> msgValueParam nm"
proof (cases a)
  case (UnaryExpr op x)
  show ?thesis
  proof (cases "op = AND")
    case True
    with assms UnaryExpr show ?thesis
      by (auto simp: reportAddr_message split: option.splits)
  next
    case False
    with assms UnaryExpr show ?thesis by simp
  qed
qed (use assms in simp_all)

lemma case3_message: "d \<in> set (case3 info n) \<Longrightarrow> Message d \<noteq> msgValueParam nm"
  by (cases "(info, n)" rule: case3.cases) (auto dest: checkArg_message)

lemma bodyVisit_count:
  "count_list (bodyVisit table info n) (Diagnostic q (msgValueParam nm))
     \<le> count_list (map NamePos (lhsIdents n)) q"
proof -
  have "Diagnostic q (msgValueParam nm) \<notin> set (case2 info n)"
    using case2_message msg_value_not_slice by fastforce
  moreover have "Diagnostic q (msgValueParam nm) \<notin> set (case3 info n)"
    using case3_message by fastforce
  ultimately show ?thesis
    using case1_count [of table n q "msgValueParam nm"] by (simp add: bodyVisit_def)
qed

lemma fileVisit_count:
  assumes "fileVisit info (NDecl d) = Some xs"
  shows "count_list xs (Diagnostic q (msgValueParam nm)) \<le> count_list (map NamePos (declTargets d)) q"
proof (cases d)
  case (FuncDecl name ps body)
  with assms obtain ss where body: "body = Some ss"
    by (cases body) (auto split: option.splits)
  from fileVisit_FuncDecl [of info name ps ss xs] assms FuncDecl body obtain table where
    xs: "xs = concat (map (bodyVisit table info) (Walk_stmt (BlockStmt ss)))"
    by blast
  have "count_list xs (Diagnostic q (msgValueParam nm))
          \<le> count_list (concat (map (\<lambda>n. map NamePos (lhsIdents n)) (Walk_stmt (BlockStmt ss)))) q"
    unfolding xs by (rule count_concat_le) (rule bodyVisit_count)
  then show ?thesis
    by (simp add: FuncDecl body assignTargets_def map_concat comp_def del: Walk_expr.simps)
next
  case GenDecl
  with assms show ?thesis by auto
qed

lemma visitNodes_count:
  "visitNodes (fileVisit info) (map NDecl decls) = (ds, b) \<Longrightarrow>
   count_list ds (Diagnostic q (msgValueParam nm))
     \<le> count_list (map NamePos (concat (map declTargets decls))) q"
proof (induction decls arbitrary: ds b)
  case Nil
  then show ?case by simp
next
  case (Cons d decls)
  show ?case
  proof (cases "fileVisit info (NDecl d)")
    case None
    with Cons.prems show ?thesis by simp
  next
    case (Some xs)
    obtain ds' b' where rest: "visitNodes (fileVisit info) (map NDecl decls) = (ds', b')"
      by (cases "visitNodes (fileVisit info) (map NDecl decls)")
    with Cons.prems Some have ds: "ds = xs @ ds'" by simp
    show ?thesis
      using fileVisit_count [OF Some, of q nm] Cons.IH [OF rest]
      by (simp add: ds)
  qed
qed

section \<open>The output of a run that returns\<close>

lemma fileVisit_declDiags: "fileVisit info (NDecl d) = Some xs \<Longrightarrow> xs = declDiags info d"
  by (cases "(info, d)" rule: declDiags.cases) (auto split: option.splits)

lemma fileVisit_complete:
  "fileVisit info (NDecl (FuncDecl name ps body)) = Some xs \<Longrightarrow>
   \<exists>table ss. paramNames info ps = Some table \<and> body = Some ss"
  by (auto split: option.splits)

lemma visitNodes_output:
  "visitNodes (fileVisit info) (map NDecl decls) = (ds, False) \<Longrightarrow>
   ds = concat (map (declDiags info) decls) \<and> (\<forall>d \<in> set decls. fileVisit info (NDecl d) \<noteq> None)"
proof (induction decls arbitrary: ds)
  case Nil
  then show ?case by simp
next
  case (Cons d decls)
  from Cons.prems obtain xs where xs: "fileVisit info (NDecl d) = Some xs"
    by (cases "fileVisit info (NDecl d)") auto
  obtain ds' b where rest: "visitNodes (fileVisit info) (map NDecl decls) = (ds', b)"
    by (cases "visitNodes (fileVisit info) (map NDecl decls)")
  with Cons.prems xs have "b = False" and ds: "ds = xs @ ds'" by auto
  with rest Cons.IH [of ds'] fileVisit_declDiags [OF xs] xs show ?case by auto
qed

lemma run_output:
  assumes "run p = (ds, Return err)"
  shows "ds = concat (map (declDiags (TypesInfo p)) (concat (map Decls (Files p))))"
    and "d \<in> set (concat (map Decls (Files p))) \<Longrightarrow> fileVisit (TypesInfo p) (NDecl d) \<noteq> None"
proof -
  have "visitNodes (fileVisit (TypesInfo p)) (map NDecl (concat (map Decls (Files p)))) = (ds, False)"
    using assms by (auto simp: run_decls split: prod.splits if_splits)
  from visitNodes_output [OF this]
  show "ds = concat (map (declDiags (TypesInfo p)) (concat (map Decls (Files p))))"
    and "d \<in> set (concat (map Decls (Files p))) \<Longrightarrow> fileVisit (TypesInfo p) (NDecl d) \<noteq> None"
    by blast+
qed

lemma declDiags_origin:
  assumes "d \<in> set (declDiags info decl)"
  obtains name ps body table n where
    "decl = FuncDecl name ps (Some body)" "paramNames info ps = Some table"
    "n \<in> set (Walk_stmt (BlockStmt body))" "d \<in> set (bodyVisit table info n)"
proof (cases "(info, decl)" rule: declDiags.cases)
  case (1 info' name ps body)
  with assms obtain table where table: "paramNames info ps = Some table"
    and "d \<in> set (concat (map (bodyVisit table info) (Walk_stmt (BlockStmt body))))"
    by (cases "paramNames info ps") (auto simp del: Walk_expr.simps Walk_stmt.simps)
  then obtain n where "n \<in> set (Walk_stmt (BlockStmt body))" "d \<in> set (bodyVisit table info n)"
    by (auto simp del: Walk_expr.simps Walk_stmt.simps)
  with 1 table that show ?thesis by auto
qed (use assms in simp_all)

section \<open>Where a diagnostic comes from\<close>

lemma Range_body_walked:
  "NStmt (RangeStmt k v t x b) \<in> set (Walk_expr e) \<Longrightarrow>
     NStmt (BlockStmt b) \<in> set (Walk_expr e) \<and> set (Walk_stmts b) \<subseteq> set (Walk_expr e)"
  "NStmt (RangeStmt k v t x b) \<in> set (Walk_exprs es) \<Longrightarrow>
     NStmt (BlockStmt b) \<in> set (Walk_exprs es) \<and> set (Walk_stmts b) \<subseteq> set (Walk_exprs es)"
  "NStmt (RangeStmt k v t x b) \<in> set (Walk_field fl) \<Longrightarrow>
     NStmt (BlockStmt b) \<in> set (Walk_field fl) \<and> set (Walk_stmts b) \<subseteq> set (Walk_field fl)"
  "NStmt (RangeStmt k v t x b) \<in> set (Walk_fields fls) \<Longrightarrow>
     NStmt (BlockStmt b) \<in> set (Walk_fields fls) \<and> set (Walk_stmts b) \<subseteq> set (Walk_fields fls)"
  "NStmt (RangeStmt k v t x b) \<in> set (Walk_stmt s) \<Longrightarrow>
     NStmt (BlockStmt b) \<in> set (Walk_stmt s) \<and> set (Walk_stmts b) \<subseteq> set (Walk_stmt s)"
  "NStmt (RangeStmt k v t x b) \<in> set (Walk_stmts ss) \<Longrightarrow>
     NStmt (BlockStmt b) \<in> set (Walk_stmts ss) \<and> set (Walk_stmts b) \<subseteq> set (Walk_stmts ss)"
  by (induction e and es and fl and fls and s and ss
      rule: Walk_expr_Walk_exprs_Walk_field_Walk_fields_Walk_stmt_Walk_stmts.induct)
     (auto split: option.splits)

lemma Range_block_walked:
  "NStmt (RangeStmt k v t x b) \<in> set (Walk_stmt (BlockStmt body)) \<Longrightarrow>
   set (Walk_stmt (BlockStmt b)) \<subseteq> set (Walk_stmt (BlockStmt body))"
  using Range_body_walked(5) [of k v t x b "BlockStmt body"] by simp

lemma nodeLoops_Range:
  "(v, x, b) \<in> set (nodeLoops info n) \<Longrightarrow>
   \<exists>key tok. n = NStmt (RangeStmt key (Some (Ident v)) tok x b) \<and>
     isSliceOrArray (TypeOf info x) \<and> Name v \<noteq> ''_''"
  by (cases "(info, n)" rule: nodeLoops.cases) (auto split: if_splits)

lemma case1_origin:
  "d \<in> set (case1 table n) \<Longrightarrow>
   \<exists>li \<in> set (lhsIdents n). d = Diagnostic (NamePos li) (msgValueParam (Name li))"
  by (cases "(table, n)" rule: case1.cases)
     (auto simp: checkParamLhs_def targetIdent_def split: option.splits if_splits)

lemma rangeBodyVisit_origin:
  "d \<in> set (rangeBodyVisit v x n) \<Longrightarrow>
   \<exists>li \<in> set (lhsIdents n). Name li = Name v \<and>
     d = Diagnostic (NamePos li) (msgSliceElement (Name v) (ExprString x))"
  by (cases "(v, x, n)" rule: rangeBodyVisit.cases)
     (auto simp: checkRangeLhs_def targetIdent_def split: option.splits if_splits)

lemma case2_nodeLoops:
  "case2 info n =
     concat (map (\<lambda>(v, x, b). concat (map (rangeBodyVisit v x) (Walk_stmt (BlockStmt b))))
               (nodeLoops info n))"
  by (cases "(info, n)" rule: case2.cases) (auto simp del: Walk_expr.simps Walk_stmt.simps)

lemma case2_origin:
  assumes "d \<in> set (case2 info n)"
  shows "\<exists>(v, x, b) \<in> set (nodeLoops info n). \<exists>li \<in> set (assignTargets b).
           Name li = Name v \<and> d = Diagnostic (NamePos li) (msgSliceElement (Name v) (ExprString x))"
proof -
  from assms obtain v x b m where
    loop: "(v, x, b) \<in> set (nodeLoops info n)"
    and m: "m \<in> set (Walk_stmt (BlockStmt b))" and d: "d \<in> set (rangeBodyVisit v x m)"
    unfolding case2_nodeLoops by (auto simp del: Walk_expr.simps Walk_stmt.simps)
  from rangeBodyVisit_origin [OF d] obtain li where
    li: "li \<in> set (lhsIdents m)" "Name li = Name v"
        "d = Diagnostic (NamePos li) (msgSliceElement (Name v) (ExprString x))"
    by blast
  from m li(1) have "li \<in> set (assignTargets b)"
    unfolding assignTargets_def by (auto simp del: Walk_expr.simps Walk_stmt.simps)
  with loop li(2,3) show ?thesis by blast
qed

lemma checkArg_origin: "d \<in> set (checkArg info f a) \<Longrightarrow> DPos d \<in> NamePos ` set (argIdent a)"
proof (cases a)
  case (UnaryExpr op x)
  assume d: "d \<in> set (checkArg info f a)"
  show ?thesis
  proof (cases "op = AND")
    case True
    have "DPos (reportAddr i f t) = NamePos i" for i t
      by (cases t) simp_all
    with d UnaryExpr True show ?thesis
      by (cases x rule: lhsIdent.cases) (auto simp: targetIdent_def split: option.splits)
  next
    case False
    with d UnaryExpr show ?thesis by simp
  qed
qed simp_all

lemma case3_origin: "d \<in> set (case3 info n) \<Longrightarrow> DPos d \<in> NamePos ` set (addrIdents n)"
  by (cases "(info, n)" rule: case3.cases) (fastforce dest: checkArg_origin)+

text \<open>Membership in the lists of a pass.\<close>

lemma concat_map_member: "x \<in> set xs \<Longrightarrow> y \<in> set (g x) \<Longrightarrow> y \<in> set (concat (map g xs))"
  by auto

lemma in_passTargets:
  "decl \<in> set (concat (map Decls (Files p))) \<Longrightarrow> li \<in> set (declTargets decl) \<Longrightarrow>
   li \<in> set (passTargets p)"
  unfolding passTargets_def by auto

lemma in_passAddrs:
  "decl \<in> set (concat (map Decls (Files p))) \<Longrightarrow> li \<in> set (declAddrs decl) \<Longrightarrow>
   li \<in> set (passAddrs p)"
  unfolding passAddrs_def by auto

lemma in_passLoops:
  "decl \<in> set (concat (map Decls (Files p))) \<Longrightarrow> l \<in> set (declLoops (TypesInfo p) decl) \<Longrightarrow>
   l \<in> set (passLoops p)"
  unfolding passLoops_def by auto

lemma distinct_map_eq:
  "distinct (map f xs) \<Longrightarrow> x \<in> set xs \<Longrightarrow> y \<in> set xs \<Longrightarrow> f x = f y \<Longrightarrow> x = y"
  by (meson distinct_map inj_onD)

lemma filter_single:
  "(\<And>x. x \<in> set xs \<Longrightarrow> P x \<Longrightarrow> x = a) \<Longrightarrow> count_list xs a = 1 \<Longrightarrow> P a \<Longrightarrow> filter P xs = [a]"
proof (induction xs)
  case Nil
  then show ?case by simp
next
  case (Cons x xs)
  show ?case
  proof (cases "x = a")
    case True
    with Cons.prems(2) have "a \<notin> set xs"
      by (simp add: count_list_0_iff)
    with Cons.prems(1) have "filter P xs = []"
      by (auto simp: filter_empty_conv)
    with True Cons.prems(3) show ?thesis by simp
  next
    case False
    with Cons.prems(1) have "\<not> P x" by auto
    moreover from False Cons.prems(2) have "count_list xs a = 1" by simp
    ultimately show ?thesis
      using Cons.IH Cons.prems(1,3) by simp
  qed
qed

text \<open>
  Every diagnostic of a run is reported by one of the three cases at a node of the body
  of a declaration of the pass.
\<close>

lemma run_origin:
  assumes "run p = (ds, Return err)" and "d \<in> set ds"
  shows "(\<exists>li \<in> set (passTargets p). d = Diagnostic (NamePos li) (msgValueParam (Name li))) \<or>
         (\<exists>(v, x, b) \<in> set (passLoops p). \<exists>li \<in> set (assignTargets b).
            li \<in> set (passTargets p) \<and> Name li = Name v \<and>
            d = Diagnostic (NamePos li) (msgSliceElement (Name v) (ExprString x))) \<or>
         DPos d \<in> NamePos ` set (passAddrs p)"
proof -
  let ?info = "TypesInfo p"
  from assms obtain decl where
    decl: "decl \<in> set (concat (map Decls (Files p)))" and "d \<in> set (declDiags ?info decl)"
    unfolding run_output(1) [OF assms(1)] by auto
  then obtain name ps body table n where
    eq: "decl = FuncDecl name ps (Some body)"
    and n: "n \<in> set (Walk_stmt (BlockStmt body))" and d: "d \<in> set (bodyVisit table ?info n)"
    by (auto elim: declDiags_origin)
  from d consider "d \<in> set (case1 table n)" | "d \<in> set (case2 ?info n)" | "d \<in> set (case3 ?info n)"
    by (auto simp: bodyVisit_def)
  then show ?thesis
  proof cases
    case 1
    from case1_origin [OF 1] obtain li where
      li: "li \<in> set (lhsIdents n)" "d = Diagnostic (NamePos li) (msgValueParam (Name li))"
      by blast
    from n li(1) have "li \<in> set (declTargets decl)"
      unfolding eq by (auto simp: assignTargets_def simp del: Walk_expr.simps Walk_stmt.simps)
    from in_passTargets [OF decl this] li(2) show ?thesis by blast
  next
    case 2
    from case2_origin [OF 2] obtain v x b li where
      loop: "(v, x, b) \<in> set (nodeLoops ?info n)" and li: "li \<in> set (assignTargets b)"
      "Name li = Name v" "d = Diagnostic (NamePos li) (msgSliceElement (Name v) (ExprString x))"
      by blast
    from n loop have "(v, x, b) \<in> set (declLoops ?info decl)"
      unfolding eq by (auto simp del: Walk_expr.simps Walk_stmt.simps)
    from in_passLoops [OF decl this] have inpass: "(v, x, b) \<in> set (passLoops p)" .
    from nodeLoops_Range [OF loop] obtain key tok where
      "n = NStmt (RangeStmt key (Some (Ident v)) tok x b)"
      by blast
    with n have "set (Walk_stmt (BlockStmt b)) \<subseteq> set (Walk_stmt (BlockStmt body))"
      using Range_block_walked by blast
    with li(1) have "li \<in> set (declTargets decl)"
      unfolding eq by (auto simp: assignTargets_def simp del: Walk_expr.simps Walk_stmt.simps)
    from in_passTargets [OF decl this] inpass li show ?thesis by blast
  next
    case 3
    from case3_origin [OF 3] obtain vi where
      vi: "vi \<in> set (addrIdents n)" "DPos d = NamePos vi"
      by blast
    from n vi(1) have "vi \<in> set (declAddrs decl)"
      unfolding eq by (auto simp del: Walk_expr.simps Walk_stmt.simps)
    from in_passAddrs [OF decl this] vi(2) show ?thesis by blast
  qed
qed

section \<open>Case 1: the value-parameter check\<close>

lemma value_param_core:
  assumes "run p = (ds, Return err)"
    and "f \<in> set (Files p)"
    and "FuncDecl name ps (Some body) \<in> set (Decls f)"
    and "paramNames (TypesInfo p) ps = Some table"
    and "table (Name ident) = Some ty"
    and "\<not> isPointer ty"
    and "NStmt (AssignStmt lhs tok rhs) \<in> set (Walk_stmt (BlockStmt body))"
    and "target \<in> set lhs"
    and "target = Ident ident \<or> target = SelectorExpr (Ident ident) sel"
    and "distinct (map NamePos (passTargets p))"
    and "NamePos ident \<notin> NamePos ` set (passAddrs p)"
  shows "count_list ds (Diagnostic (NamePos ident) (msgValueParam (Name ident))) = 1 \<and>
         (\<forall>d \<in> set ds. DPos d = NamePos ident \<longrightarrow>
            d = Diagnostic (NamePos ident) (msgValueParam (Name ident)) \<or>
            (\<exists>(v, x, b) \<in> set (passLoops p).
               Name v = Name ident \<and> ident \<in> set (assignTargets b) \<and>
               d = Diagnostic (NamePos ident) (msgSliceElement (Name v) (ExprString x)))) \<and>
         ((\<forall>(v, x, b) \<in> set (passLoops p). Name v = Name ident \<longrightarrow> ident \<notin> set (assignTargets b)) \<longrightarrow>
            filter (\<lambda>d. DPos d = NamePos ident) ds =
              [Diagnostic (NamePos ident) (msgValueParam (Name ident))])"
proof -
  let ?d = "Diagnostic (NamePos ident) (msgValueParam (Name ident))"
  let ?decl = "FuncDecl name ps (Some body)"
  have root: "lhsIdent target = Some ident"
    using assms(9) by auto
  have decl: "?decl \<in> set (concat (map Decls (Files p)))"
    using assms(2,3) by auto
  have "ident \<in> set (lhsIdents (NStmt (AssignStmt lhs tok rhs)))"
    using assms(8) root by (force simp: targetIdent_def)
  with assms(7) have "ident \<in> set (concat (map lhsIdents (Walk_stmt (BlockStmt body))))"
    by (rule concat_map_member)
  then have "ident \<in> set (declTargets ?decl)"
    by (simp only: declTargets.simps assignTargets_def)
  from in_passTargets [OF decl this] have ident: "ident \<in> set (passTargets p)" .
  have "checkParamLhs table target = [?d]"
    using assms(5,6) root by (simp add: checkParamLhs_def)
  then have "?d \<in> set (case1 table (NStmt (AssignStmt lhs tok rhs)))"
    using assms(8) by force
  then have "?d \<in> set (bodyVisit table (TypesInfo p) (NStmt (AssignStmt lhs tok rhs)))"
    by (simp add: bodyVisit_def)
  then have "?d \<in> set ds"
    by (rule run_body_reported [OF assms(1,2,3,4,7)])
  then have "count_list ds ?d \<noteq> 0"
    by (simp add: count_list_0_iff)
  moreover have "count_list ds ?d \<le> 1"
  proof -
    obtain b where "visitNodes (fileVisit (TypesInfo p)) (map NDecl (concat (map Decls (Files p)))) = (ds, b)"
      using assms(1) by (auto simp: run_decls split: prod.splits)
    then have "count_list ds ?d \<le> count_list (map NamePos (passTargets p)) (NamePos ident)"
      unfolding passTargets_def by (rule visitNodes_count)
    also have "\<dots> \<le> 1"
      using assms(10) by (rule distinct_count_le_1)
    finally show ?thesis .
  qed
  ultimately have one: "count_list ds ?d = 1" by simp
  have others: "d = ?d \<or>
            (\<exists>(v, x, b) \<in> set (passLoops p).
               Name v = Name ident \<and> ident \<in> set (assignTargets b) \<and>
               d = Diagnostic (NamePos ident) (msgSliceElement (Name v) (ExprString x)))"
    if d: "d \<in> set ds" and pos: "DPos d = NamePos ident" for d
  proof -
    from run_origin [OF assms(1) d] consider
      (param) li where "li \<in> set (passTargets p)"
        "d = Diagnostic (NamePos li) (msgValueParam (Name li))"
      | (loop) v x b li where "(v, x, b) \<in> set (passLoops p)" "li \<in> set (assignTargets b)"
        "li \<in> set (passTargets p)" "Name li = Name v"
        "d = Diagnostic (NamePos li) (msgSliceElement (Name v) (ExprString x))"
      | (addr) "DPos d \<in> NamePos ` set (passAddrs p)"
      by blast
    then show ?thesis
    proof cases
      case param
      with pos have "NamePos li = NamePos ident" by simp
      from distinct_map_eq [OF assms(10) param(1) ident this] param(2)
      show ?thesis by simp
    next
      case loop
      with pos have "NamePos li = NamePos ident" by simp
      from distinct_map_eq [OF assms(10) loop(3) ident this] have "li = ident" .
      with loop have "Name v = Name ident \<and> ident \<in> set (assignTargets b) \<and>
               d = Diagnostic (NamePos ident) (msgSliceElement (Name v) (ExprString x))"
        by simp
      with loop(1) have "\<exists>(v, x, b) \<in> set (passLoops p).
               Name v = Name ident \<and> ident \<in> set (assignTargets b) \<and>
               d = Diagnostic (NamePos ident) (msgSliceElement (Name v) (ExprString x))"
        by (intro bexI [of _ "(v, x, b)"]) simp_all
      then show ?thesis by (rule disjI2)
    next
      case addr
      with pos assms(11) show ?thesis by simp
    qed
  qed
  have alone: "filter (\<lambda>d. DPos d = NamePos ident) ds = [?d]"
    if none: "\<forall>(v, x, b) \<in> set (passLoops p). Name v = Name ident \<longrightarrow> ident \<notin> set (assignTargets b)"
  proof (rule filter_single)
    fix d assume "d \<in> set ds" "DPos d = NamePos ident"
    from others [OF this] show "d = ?d"
    proof
      assume "\<exists>(v, x, b) \<in> set (passLoops p).
               Name v = Name ident \<and> ident \<in> set (assignTargets b) \<and>
               d = Diagnostic (NamePos ident) (msgSliceElement (Name v) (ExprString x))"
      then obtain l where l: "l \<in> set (passLoops p)"
        "case l of (v, x, b) \<Rightarrow> Name v = Name ident \<and> ident \<in> set (assignTargets b) \<and>
               d = Diagnostic (NamePos ident) (msgSliceElement (Name v) (ExprString x))"
        by (rule bexE)
      from none l(1) have "case l of (v, x, b) \<Rightarrow> Name v = Name ident \<longrightarrow> ident \<notin> set (assignTargets b)"
        by (rule bspec)
      with l(2) show ?thesis
        by (cases l) simp
    qed
  qed (use one in simp_all)
  from one have c1: "count_list ds ?d = 1" .
  from others have c2: "\<forall>d \<in> set ds. DPos d = NamePos ident \<longrightarrow>
            d = ?d \<or>
            (\<exists>(v, x, b) \<in> set (passLoops p).
               Name v = Name ident \<and> ident \<in> set (assignTargets b) \<and>
               d = Diagnostic (NamePos ident) (msgSliceElement (Name v) (ExprString x)))"
    by (intro ballI impI)
  from alone have c3: "(\<forall>(v, x, b) \<in> set (passLoops p). Name v = Name ident \<longrightarrow> ident \<notin> set (assignTargets b)) \<longrightarrow>
            filter (\<lambda>d. DPos d = NamePos ident) ds = [?d]"
    by (intro impI)
  from c1 c2 c3 show ?thesis
    by (intro conjI)
qed



text \<open>
  Claim C1, as the code has it. In a run that returns, take a function declaration whose
  parameter table gives the name \<open>p\<close> a type that is not a pointer type, and an
  assignment in its body with a left-hand side that is the bare name \<open>p\<close> or the
  one-level field access \<open>p.field\<close>. The whole output of the run holds exactly one
  diagnostic with the message
  \<^verbatim>\<open>modification to '<name>' is discarded because it is passed by value; pass by reference instead\<close>
  at the position of that \<open>p\<close>. Any other diagnostic at that position is the range-copy
  diagnostic of a range loop that binds a value variable of the same name and holds the
  assignment in its body; where there is no such loop, the diagnostic is the only one at
  the position. The identifiers found on left-hand sides of the pass are assumed to stand
  at different positions, and none at the position of an identifier whose address is
  passed to a call, as it is in parsed files.
\<close>

theorem value_param_assignment_reported:
  assumes "run p = (ds, Return err)"
    and "f \<in> set (Files p)"
    and "FuncDecl name ps (Some body) \<in> set (Decls f)"
    and "paramNames (TypesInfo p) ps = Some table"
    and "table (Name ident) = Some ty"
    and "\<not> isPointer ty"
    and "NStmt (AssignStmt lhs tok rhs) \<in> set (Walk_stmt (BlockStmt body))"
    and "target \<in> set lhs"
    and "target = Ident ident \<or> target = SelectorExpr (Ident ident) sel"
    and "distinct (map NamePos (passTargets p))"
    and "NamePos ident \<notin> NamePos ` set (passAddrs p)"
  shows "count_list ds
           (Diagnostic (NamePos ident)
              (''modification to '' @ [CHR 0x27] @ Name ident @ [CHR 0x27]
                 @ '' is discarded because it is passed by value; pass by reference instead''))
           = 1 \<and>
         (\<forall>d \<in> set ds. DPos d = NamePos ident \<longrightarrow>
            d = Diagnostic (NamePos ident)
                  (''modification to '' @ [CHR 0x27] @ Name ident @ [CHR 0x27]
                     @ '' is discarded because it is passed by value; pass by reference instead'') \<or>
            (\<exists>(v, x, b) \<in> set (passLoops p).
               Name v = Name ident \<and> ident \<in> set (assignTargets b) \<and>
               d = Diagnostic (NamePos ident) (msgSliceElement (Name v) (ExprString x)))) \<and>
         ((\<forall>(v, x, b) \<in> set (passLoops p). Name v = Name ident \<longrightarrow> ident \<notin> set (assignTargets b)) \<longrightarrow>
            filter (\<lambda>d. DPos d = NamePos ident) ds =
              [Diagnostic (NamePos ident)
                 (''modification to '' @ [CHR 0x27] @ Name ident @ [CHR 0x27]
                    @ '' is discarded because it is passed by value; pass by reference instead'')])"
  using value_param_core [OF assms] unfolding msgValueParam_def .

text \<open>The theorem at \<^verbatim>\<open>func something(ts TestStruct) { ts.Name = 1 }\<close>.\<close>

theorem value_param_assignment_reported_witness:
  "run passValueParam = ([Diagnostic 50 (msgValueParam ''ts'')], Return None) \<and>
   paramNames (TypesInfo passValueParam) valueParamParams = Some [''ts'' \<mapsto> Some tTestStruct] \<and>
   \<not> isPointer (Some tTestStruct) \<and>
   distinct (map NamePos (passTargets passValueParam)) \<and>
   passAddrs passValueParam = [] \<and>
   passLoops passValueParam = [] \<and>
   count_list (fst (run passValueParam))
     (Diagnostic 50
        (''modification to '' @ [CHR 0x27] @ ''ts'' @ [CHR 0x27]
           @ '' is discarded because it is passed by value; pass by reference instead'')) = 1 \<and>
   filter (\<lambda>d. DPos d = 50) (fst (run passValueParam)) =
     [Diagnostic 50
        (''modification to '' @ [CHR 0x27] @ ''ts'' @ [CHR 0x27]
           @ '' is discarded because it is passed by value; pass by reference instead'')]"
  using value_param_assignment_reported
    [where p = passValueParam and ds = "[Diagnostic 50 (msgValueParam ''ts'')]" and err = None
       and f = valueParamFile and name = "MkIdent 20 ''something''" and ps = valueParamParams
       and body = valueParamBody and table = "[''ts'' \<mapsto> Some tTestStruct]"
       and ident = "MkIdent 50 ''ts''" and ty = "Some tTestStruct"
       and lhs = "[SelectorExpr (Ident (MkIdent 50 ''ts'')) (MkIdent 53 ''Name'')]"
       and tok = ASSIGN and rhs = "[BasicLit ''1'']"
       and target = "SelectorExpr (Ident (MkIdent 50 ''ts'')) (MkIdent 53 ''Name'')"
       and sel = "MkIdent 53 ''Name''"]
  by (simp add: evs passValueParam_def valueParamFile_def valueParamParams_def valueParamBody_def
        tTestStruct_def passTargets_def passAddrs_def passLoops_def assignTargets_def
        targetIdent_def msgValueParam_def)

text \<open>
  A field access of more than one level is rooted at the parameter too, and is not
  reported: the switch takes the operand of a selector only when it is an identifier.
  In \<^verbatim>\<open>func deep(o Outer) { o.inner.Name = 1 }\<close> the parameter \<open>o\<close> is passed by
  value and the run reports nothing.
\<close>

theorem deep_field_counterexample:
  "paramNames (TypesInfo passDeepField) [Field [MkIdent 30 ''o''] (Ident (MkIdent 32 ''Outer''))]
     = Some [''o'' \<mapsto> Some tOuter] \<and>
   \<not> isPointer (Some tOuter) \<and>
   lhsIdent (SelectorExpr (SelectorExpr (Ident (MkIdent 50 ''o'')) (MkIdent 52 ''inner''))
              (MkIdent 58 ''Name'')) = None \<and>
   run passDeepField = ([], Return None)"
  by (simp add: evs passDeepField_def tOuter_def)

text \<open>
  And a reported assignment need not be the only diagnostic at its position: in
  \<^verbatim>\<open>func both(c Collectable, s []Collectable) { for _, c = range s { c.checked = true } }\<close>
  the target \<open>c\<close> is the parameter and the value variable of the loop, and the run holds a
  range-copy diagnostic and a value-parameter diagnostic at it.
\<close>

lemma param_in_range_reported_twice:
  "run passParamInRange =
     ([Diagnostic 81 (msgSliceElement ''c'' ''s''), Diagnostic 81 (msgValueParam ''c'')],
      Return None)"
  by (simp add: evs passParamInRange_def tCollectable_def)


text \<open>
  Claim C4, as the code has it. The switch on a left-hand side has no case for an index
  expression: it finds no identifier for \<^verbatim>\<open>p[k]\<close>, so the value-parameter check
  reports nothing for such a target, whatever the parameter table holds. The targets for
  which the switch finds the identifier \<open>p\<close> are the bare name \<open>p\<close> and the selectors
  \<open>p.field\<close> whose operand is the identifier \<open>p\<close>, and no others.
\<close>

theorem index_target_not_reported:
  "lhsIdent (IndexExpr x i) = None \<and>
   checkParamLhs table (IndexExpr x i) = [] \<and>
   case1 table (NStmt (AssignStmt [IndexExpr x i] tok rhs)) = [] \<and>
   (lhsIdent target = Some ident) =
     (target = Ident ident \<or> (\<exists>sel. target = SelectorExpr (Ident ident) sel))"
proof -
  have "(lhsIdent target = Some ident) =
          (target = Ident ident \<or> (\<exists>sel. target = SelectorExpr (Ident ident) sel))"
    by (cases target rule: lhsIdent.cases) auto
  then show ?thesis
    by (simp add: checkParamLhs_def)
qed

text \<open>
  In \<^verbatim>\<open>func first(p [3]int) { p[0] = 1 }\<close> the parameter \<open>p\<close> is an array passed by
  value, and the run reports nothing.
\<close>

theorem index_target_counterexample:
  "paramNames (TypesInfo passIndex)
     [Field [MkIdent 26 ''p''] (ArrayType (Some (BasicLit ''3'')) (Ident (MkIdent 31 ''int'')))]
     = Some [''p'' \<mapsto> Some (Array 3 (Basic ''int''))] \<and>
   \<not> isPointer (Some (Array 3 (Basic ''int''))) \<and>
   run passIndex = ([], Return None)"
  by (simp add: evs passIndex_def)

text \<open>
  Claim C5 says that a parameter whose type is a pointer, also a defined type whose
  underlying type is a pointer, is never reported by the value-parameter check.
  \<^verbatim>\<open>isPointer\<close> tests the declared type without taking \<^verbatim>\<open>Underlying()\<close>: with
  \<^verbatim>\<open>type Ref *TestStruct\<close>, the assignment in \<^verbatim>\<open>func rename(p Ref) { p.Name = 1 }\<close>
  is reported, while the same function with \<^verbatim>\<open>p *TestStruct\<close> (and \<^verbatim>\<open>*p = zero\<close>
  added) reports nothing, as no assignment through a parameter of a pointer type is.
\<close>

lemma pointer_param_not_reported:
  "table (Name ident) = Some (Some (Pointer t)) \<Longrightarrow>
   checkParamLhs table (Ident ident) = [] \<and>
   checkParamLhs table (SelectorExpr (Ident ident) sel) = [] \<and>
   checkParamLhs table (StarExpr (Ident ident)) = []"
  by (simp add: checkParamLhs_def isPointer_def)

theorem named_pointer_param_reported:
  "run passNamedPointer = ([Diagnostic 40 (msgValueParam ''p'')], Return None) \<and>
   run passPointer = ([], Return None)"
  by (simp add: evs passNamedPointer_def passPointer_def)

section \<open>Case 2: the range-copy check\<close>

lemma case2_range:
  "isSliceOrArray (TypeOf info x) \<Longrightarrow> Name v \<noteq> ''_'' \<Longrightarrow>
   case2 info (NStmt (RangeStmt key (Some (Ident v)) tok x body)) =
     concat (map (rangeBodyVisit v x) (Walk_stmt (BlockStmt body)))"
  by (simp del: Walk_expr.simps)

lemma in_concat_map: "x \<in> set xs \<Longrightarrow> d \<in> set (f x) \<Longrightarrow> d \<in> set (concat (map f xs))"
  by auto

text \<open>What one qualifying range loop reports for a target in its body.\<close>

lemma range_target_reported:
  assumes "run p = (ds, Return err)"
    and "f \<in> set (Files p)"
    and "FuncDecl name ps (Some fbody) \<in> set (Decls f)"
    and "NStmt (RangeStmt key (Some (Ident v)) tok s body) \<in> set (Walk_stmt (BlockStmt fbody))"
    and "isSliceOrArray (TypeOf (TypesInfo p) s)"
    and "Name v \<noteq> ''_''"
    and "NStmt (AssignStmt lhs tok' rhs) \<in> set (Walk_stmt (BlockStmt body))"
    and "target \<in> set lhs"
    and "lhsIdent target = Some li"
    and "Name li = Name v"
  shows "Diagnostic (NamePos li) (msgSliceElement (Name v) (ExprString s))
           \<in> set (case2 (TypesInfo p) (NStmt (RangeStmt key (Some (Ident v)) tok s body)))"
    and "Diagnostic (NamePos li) (msgSliceElement (Name v) (ExprString s)) \<in> set ds"
proof -
  let ?info = "TypesInfo p"
  let ?r = "NStmt (RangeStmt key (Some (Ident v)) tok s body)"
  let ?d = "Diagnostic (NamePos li) (msgSliceElement (Name v) (ExprString s))"
  obtain table where table: "paramNames ?info ps = Some table"
    using run_reported [OF assms(1,2,3)] by blast
  have "checkRangeLhs v s target = [?d]"
    using assms(9,10) by (simp add: checkRangeLhs_def)
  then have "?d \<in> set (rangeBodyVisit v s (NStmt (AssignStmt lhs tok' rhs)))"
    using assms(8) by force
  then have "?d \<in> set (concat (map (rangeBodyVisit v s) (Walk_stmt (BlockStmt body))))"
    by (rule in_concat_map [OF assms(7)])
  then show in_loop: "?d \<in> set (case2 ?info ?r)"
    by (simp only: case2_range [OF assms(5,6)])
  then have "?d \<in> set (bodyVisit table ?info ?r)"
    by (simp add: bodyVisit_def del: case2.simps)
  then show "?d \<in> set ds"
    by (rule run_body_reported [OF assms(1,2,3) table assms(4)])
qed

text \<open>What one loop reports, as a list over the left-hand-side identifiers in its body.\<close>

lemma concat_map_filter:
  "concat (map (\<lambda>y. map g (filter P (h y))) ys) = map g (filter P (concat (map h ys)))"
  by (induction ys) simp_all

lemma checkRangeLhs_eq:
  "checkRangeLhs v x l =
     map (\<lambda>li. Diagnostic (NamePos li) (msgSliceElement (Name v) (ExprString x)))
       (filter (\<lambda>li. Name li = Name v) (targetIdent l))"
  by (simp add: checkRangeLhs_def targetIdent_def split: option.splits)

lemma rangeBodyVisit_eq:
  "rangeBodyVisit v x n =
     map (\<lambda>li. Diagnostic (NamePos li) (msgSliceElement (Name v) (ExprString x)))
       (filter (\<lambda>li. Name li = Name v) (lhsIdents n))"
proof (cases "(v, x, n)" rule: rangeBodyVisit.cases)
  case (1 v' x' lhs tok rhs)
  have "checkRangeLhs v x =
          (\<lambda>l. map (\<lambda>li. Diagnostic (NamePos li) (msgSliceElement (Name v) (ExprString x)))
                 (filter (\<lambda>li. Name li = Name v) (targetIdent l)))"
    by (rule ext) (rule checkRangeLhs_eq)
  with 1 show ?thesis
    by (simp add: concat_map_filter)
qed simp_all

lemma loop_diagnostics:
  "concat (map (rangeBodyVisit v x) (Walk_stmt (BlockStmt b))) =
     map (\<lambda>li. Diagnostic (NamePos li) (msgSliceElement (Name v) (ExprString x)))
       (filter (\<lambda>li. Name li = Name v) (assignTargets b))"
proof -
  have "rangeBodyVisit v x =
          (\<lambda>n. map (\<lambda>li. Diagnostic (NamePos li) (msgSliceElement (Name v) (ExprString x)))
                 (filter (\<lambda>li. Name li = Name v) (lhsIdents n)))"
    by (rule ext) (rule rangeBodyVisit_eq)
  then show ?thesis
    unfolding assignTargets_def by (simp only: concat_map_filter)
qed

lemma count_diagnostics:
  "count_list (map (\<lambda>li. Diagnostic (NamePos li) m) ts) d =
     (if Message d = m then count_list (map NamePos ts) (DPos d) else 0)"
proof (cases d)
  case (Diagnostic q m')
  then show ?thesis by (induction ts) auto
qed

lemma count_distinct_filter:
  "distinct (map f ts) \<Longrightarrow>
   count_list (map f (filter P ts)) q = (if \<exists>t \<in> set ts. P t \<and> f t = q then 1 else 0)"
proof (induction ts)
  case Nil
  then show ?case by simp
next
  case (Cons a ts)
  then have IH: "count_list (map f (filter P ts)) q = (if \<exists>t \<in> set ts. P t \<and> f t = q then 1 else 0)"
    and notin: "f a \<notin> f ` set ts"
    by auto
  have fresh: "f t \<noteq> f a" if "t \<in> set ts" for t
    using that notin by (metis imageI)
  show ?case
  proof (cases "P a \<and> f a = q")
    case True
    with fresh have "\<not> (\<exists>t \<in> set ts. P t \<and> f t = q)" by auto
    with IH True show ?thesis by simp
  next
    case False
    with IH show ?thesis by auto
  qed
qed

lemma loop_count:
  assumes "distinct (map NamePos (assignTargets b))"
  shows "count_list (concat (map (rangeBodyVisit v x) (Walk_stmt (BlockStmt b)))) d =
           (if loopReports d (v, x, b) then 1 else 0)"
  unfolding loop_diagnostics count_diagnostics
  using count_distinct_filter [OF assms, of "\<lambda>li. Name li = Name v" "DPos d"]
  by auto

lemma case2_count:
  assumes "\<forall>(v, x, b) \<in> set (nodeLoops info n). distinct (map NamePos (assignTargets b))"
  shows "count_list (case2 info n) d = length (filter (loopReports d) (nodeLoops info n))"
proof (cases "nodeLoops info n")
  case Nil
  then show ?thesis by (simp add: case2_nodeLoops)
next
  case (Cons l ls)
  obtain v x b where l: "l = (v, x, b)" by (cases l)
  have "ls = []"
    using Cons by (cases "(info, n)" rule: nodeLoops.cases) (auto split: if_splits)
  with Cons l have loops: "nodeLoops info n = [(v, x, b)]" by simp
  with assms have "distinct (map NamePos (assignTargets b))" by simp
  from loop_count [OF this, of v x d] show ?thesis
    by (simp add: case2_nodeLoops loops del: Walk_expr.simps Walk_stmt.simps loopReports.simps)
qed

text \<open>The messages of cases 1 and 3 are not range-copy messages.\<close>

lemma reportAddr_not_slice: "Message (reportAddr i f t) \<noteq> msgSliceElement nm text"
  by (cases t) (simp_all add: msgSliceElement_def msgAddrSlice_def msgAddrStruct_def msgAddrOther_def)

lemma checkArg_not_slice:
  assumes "d \<in> set (checkArg info f a)"
  shows "Message d \<noteq> msgSliceElement nm text"
proof (cases a)
  case (UnaryExpr op x)
  show ?thesis
  proof (cases "op = AND")
    case True
    with assms UnaryExpr show ?thesis
      by (auto simp: reportAddr_not_slice split: option.splits)
  next
    case False
    with assms UnaryExpr show ?thesis by simp
  qed
qed (use assms in simp_all)

lemma case3_not_slice: "d \<in> set (case3 info n) \<Longrightarrow> Message d \<noteq> msgSliceElement nm text"
  by (cases "(info, n)" rule: case3.cases) (auto dest: checkArg_not_slice)

lemma case1_not_slice: "d \<in> set (case1 table n) \<Longrightarrow> Message d \<noteq> msgSliceElement nm text"
  using case1_origin msg_value_not_slice by fastforce

lemma bodyVisit_range_count:
  assumes "Message d = msgSliceElement nm text"
    and "\<forall>(v, x, b) \<in> set (nodeLoops info n). distinct (map NamePos (assignTargets b))"
  shows "count_list (bodyVisit table info n) d = length (filter (loopReports d) (nodeLoops info n))"
proof -
  have "d \<notin> set (case1 table n)" "d \<notin> set (case3 info n)"
    using assms(1) case1_not_slice case3_not_slice by blast+
  then show ?thesis
    using case2_count [OF assms(2), of d] by (simp add: bodyVisit_def)
qed

lemma count_concat_eq:
  assumes "\<And>x. x \<in> set xs \<Longrightarrow> count_list (f x) d = length (filter P (g x))"
  shows "count_list (concat (map f xs)) d = length (filter P (concat (map g xs)))"
  using assms by (induction xs) simp_all

lemma declDiags_range_count:
  assumes "Message d = msgSliceElement nm text"
    and "fileVisit info (NDecl decl) \<noteq> None"
    and "\<forall>(v, x, b) \<in> set (declLoops info decl). distinct (map NamePos (assignTargets b))"
  shows "count_list (declDiags info decl) d = length (filter (loopReports d) (declLoops info decl))"
proof (cases "(info, decl)" rule: declDiags.cases)
  case (1 info' name ps body)
  then have eq: "decl = FuncDecl name ps (Some body)" by simp
  with assms(2) obtain table where table: "paramNames info ps = Some table"
    by (cases "paramNames info ps") auto
  have all: "\<forall>(v, x, b) \<in> set (concat (map (nodeLoops info) (Walk_stmt (BlockStmt body)))).
               distinct (map NamePos (assignTargets b))"
    using assms(3) unfolding eq declLoops.simps .
  have "count_list (concat (map (bodyVisit table info) (Walk_stmt (BlockStmt body)))) d =
          length (filter (loopReports d) (concat (map (nodeLoops info) (Walk_stmt (BlockStmt body)))))"
  proof (rule count_concat_eq)
    fix n assume n: "n \<in> set (Walk_stmt (BlockStmt body))"
    have "\<forall>(v, x, b) \<in> set (nodeLoops info n). distinct (map NamePos (assignTargets b))"
    proof
      fix l assume "l \<in> set (nodeLoops info n)"
      with n have "l \<in> set (concat (map (nodeLoops info) (Walk_stmt (BlockStmt body))))"
        by (rule concat_map_member)
      with all show "case l of (v, x, b) \<Rightarrow> distinct (map NamePos (assignTargets b))"
        by (rule bspec)
    qed
    from bodyVisit_range_count [OF assms(1) this]
    show "count_list (bodyVisit table info n) d = length (filter (loopReports d) (nodeLoops info n))" .
  qed
  with 1 table show ?thesis
    by (simp del: Walk_expr.simps Walk_stmt.simps)
qed simp_all

lemma run_range_count:
  assumes "run p = (ds, Return err)"
    and "Message d = msgSliceElement nm text"
    and "\<forall>(v, x, b) \<in> set (passLoops p). distinct (map NamePos (assignTargets b))"
  shows "count_list ds d = length (filter (loopReports d) (passLoops p))"
  unfolding run_output(1) [OF assms(1)] passLoops_def
proof (rule count_concat_eq)
  fix decl assume decl: "decl \<in> set (concat (map Decls (Files p)))"
  have "\<forall>(v, x, b) \<in> set (declLoops (TypesInfo p) decl). distinct (map NamePos (assignTargets b))"
  proof
    fix l assume "l \<in> set (declLoops (TypesInfo p) decl)"
    from assms(3) in_passLoops [OF decl this]
    show "case l of (v, x, b) \<Rightarrow> distinct (map NamePos (assignTargets b))"
      by (rule bspec)
  qed
  from declDiags_range_count [OF assms(2) run_output(2) [OF assms(1) decl] this]
  show "count_list (declDiags (TypesInfo p) decl) d
          = length (filter (loopReports d) (declLoops (TypesInfo p) decl))" .
qed

lemma msgSliceElement_names:
  "\<exists>a b c. msgSliceElement nm text = a @ nm @ b @ text @ c"
  unfolding msgSliceElement_def
  by (rule exI [of _ "''modification to slice element '' @ [CHR 0x27]"],
      rule exI [of _ "[CHR 0x27] @ '' is discarded; use index to modify directly, e.g., ''
                        @ [CHR 0x27] @ ''&&''"],
      rule exI [of _ "''[i] = ...'' @ [CHR 0x27]"]) simp

text \<open>
  Claim C2, as the code has it. Call a range loop inspected when its value variable is
  an identifier \<open>v\<close> other than \<open>_\<close> and its expression \<open>s\<close> has a slice or array type.
  In a run that returns, the whole output holds a range-copy diagnostic exactly once for
  every inspected loop of the pass that has, in its body, a left-hand-side identifier at
  the diagnostic's position bearing the name of the loop's variable, and whose message it
  is. So an assignment \<open>v = x\<close> or \<open>v.field = x\<close> inside the body of an inspected loop is
  reported, naming \<open>v\<close> and the rendered text of \<open>s\<close>, once by that loop and once more by
  every other inspected loop that accounts for the same diagnostic (exactly once when
  there is no other); and every range-copy diagnostic of the run stands at a left-hand
  side inside the body of an inspected loop that binds its name, so an assignment outside
  every such body, as one written after the loop, gets none. In the body of each inspected
  loop the left-hand-side identifiers are assumed to stand at different positions.
\<close>

theorem range_copy_assignment_reported:
  assumes "run p = (ds, Return err)"
    and "f \<in> set (Files p)"
    and "FuncDecl name ps (Some fbody) \<in> set (Decls f)"
    and "NStmt (RangeStmt key (Some (Ident v)) tok s body) \<in> set (Walk_stmt (BlockStmt fbody))"
    and "isSliceOrArray (TypeOf (TypesInfo p) s)"
    and "Name v \<noteq> ''_''"
    and "NStmt (AssignStmt lhs tok' rhs) \<in> set (Walk_stmt (BlockStmt body))"
    and "target \<in> set lhs"
    and "target = Ident li \<or> target = SelectorExpr (Ident li) sel"
    and "Name li = Name v"
    and "\<forall>(v', s', body') \<in> set (passLoops p). distinct (map NamePos (assignTargets body'))"
  shows "(\<forall>d. (\<exists>nm text. Message d = msgSliceElement nm text) \<longrightarrow>
            count_list ds d = length (filter (loopReports d) (passLoops p))) \<and>
         (v, s, body) \<in> set (passLoops p) \<and>
         loopReports (Diagnostic (NamePos li) (msgSliceElement (Name v) (ExprString s))) (v, s, body) \<and>
         0 < count_list ds (Diagnostic (NamePos li) (msgSliceElement (Name v) (ExprString s))) \<and>
         (filter (loopReports (Diagnostic (NamePos li) (msgSliceElement (Name v) (ExprString s))))
              (passLoops p) = [(v, s, body)] \<longrightarrow>
            count_list ds (Diagnostic (NamePos li) (msgSliceElement (Name v) (ExprString s))) = 1) \<and>
         (\<forall>d \<in> set ds. (\<exists>nm text. Message d = msgSliceElement nm text) \<longrightarrow>
            (\<exists>l \<in> set (passLoops p). loopReports d l)) \<and>
         (\<exists>a b c. msgSliceElement (Name v) (ExprString s) = a @ Name v @ b @ ExprString s @ c)"
proof -
  let ?info = "TypesInfo p"
  let ?r = "NStmt (RangeStmt key (Some (Ident v)) tok s body)"
  let ?d = "Diagnostic (NamePos li) (msgSliceElement (Name v) (ExprString s))"
  let ?decl = "FuncDecl name ps (Some fbody)"
  have count: "count_list ds d = length (filter (loopReports d) (passLoops p))"
    if "Message d = msgSliceElement nm src" for d nm src
    using run_range_count [OF assms(1) that assms(11)] .
  have decl: "?decl \<in> set (concat (map Decls (Files p)))"
    using assms(2,3) by auto
  have "(v, s, body) \<in> set (nodeLoops ?info ?r)"
    using assms(5,6) by simp
  with assms(4) have "(v, s, body) \<in> set (concat (map (nodeLoops ?info) (Walk_stmt (BlockStmt fbody))))"
    by (rule concat_map_member)
  then have "(v, s, body) \<in> set (declLoops ?info ?decl)"
    by (simp only: declLoops.simps)
  from in_passLoops [OF decl this] have loop: "(v, s, body) \<in> set (passLoops p)" .
  have root: "lhsIdent target = Some li"
    using assms(9) by auto
  have "li \<in> set (lhsIdents (NStmt (AssignStmt lhs tok' rhs)))"
    using assms(8) root by (force simp: targetIdent_def)
  with assms(7) have "li \<in> set (concat (map lhsIdents (Walk_stmt (BlockStmt body))))"
    by (rule concat_map_member)
  then have "li \<in> set (assignTargets body)"
    by (simp only: assignTargets_def)
  with assms(10) have reports: "loopReports ?d (v, s, body)"
    by auto
  from loop reports have "(v, s, body) \<in> set (filter (loopReports ?d) (passLoops p))"
    by simp
  then have "0 < length (filter (loopReports ?d) (passLoops p))"
    by (rule length_pos_if_in_set)
  then have pos: "0 < count_list ds ?d"
    using count [of ?d "Name v" "ExprString s"] by simp
  have single: "count_list ds ?d = 1"
    if "filter (loopReports ?d) (passLoops p) = [(v, s, body)]"
    using count [of ?d "Name v" "ExprString s"] that by simp
  have scoped: "\<exists>l \<in> set (passLoops p). loopReports d l"
    if d: "d \<in> set ds" and m: "Message d = msgSliceElement nm src" for d nm src
  proof -
    from d have "count_list ds d \<noteq> 0"
      by (simp add: count_list_0_iff)
    with count [OF m] have "filter (loopReports d) (passLoops p) \<noteq> []"
      by auto
    then obtain l where "l \<in> set (filter (loopReports d) (passLoops p))"
      by (cases "filter (loopReports d) (passLoops p)") auto
    then show ?thesis by auto
  qed
  have c1: "\<forall>d. (\<exists>nm text. Message d = msgSliceElement nm text) \<longrightarrow>
            count_list ds d = length (filter (loopReports d) (passLoops p))"
    using count by blast
  have c5: "filter (loopReports ?d) (passLoops p) = [(v, s, body)] \<longrightarrow> count_list ds ?d = 1"
    using single by (rule impI)
  have c6: "\<forall>d \<in> set ds. (\<exists>nm text. Message d = msgSliceElement nm text) \<longrightarrow>
            (\<exists>l \<in> set (passLoops p). loopReports d l)"
    using scoped by blast
  from c1 loop reports pos c5 c6 msgSliceElement_names [of "Name v" "ExprString s"]
  show ?thesis
    by (intro conjI)
qed

text \<open>
  The theorem at
  \<^verbatim>\<open>func somethingElse(ts *TestStruct) { for _, c := range ts.collectables { c.checked = true } }\<close>.
\<close>

theorem range_copy_assignment_reported_witness:
  "run passRange = ([Diagnostic 80 (msgSliceElement ''c'' ''ts.collectables'')], Return None) \<and>
   isSliceOrArray (TypeOf (TypesInfo passRange)
     (SelectorExpr (Ident (MkIdent 58 ''ts'')) (MkIdent 61 ''collectables''))) \<and>
   passLoops passRange =
     [(MkIdent 47 ''c'', SelectorExpr (Ident (MkIdent 58 ''ts'')) (MkIdent 61 ''collectables''),
       [AssignStmt [SelectorExpr (Ident (MkIdent 80 ''c'')) (MkIdent 82 ''checked'')]
          ASSIGN [Ident (MkIdent 92 ''true'')]])] \<and>
   assignTargets
     [AssignStmt [SelectorExpr (Ident (MkIdent 80 ''c'')) (MkIdent 82 ''checked'')]
        ASSIGN [Ident (MkIdent 92 ''true'')]] = [MkIdent 80 ''c''] \<and>
   count_list (fst (run passRange)) (Diagnostic 80 (msgSliceElement ''c'' ''ts.collectables'')) = 1"
  using range_copy_assignment_reported
    [where p = passRange and ds = "[Diagnostic 80 (msgSliceElement ''c'' ''ts.collectables'')]"
       and err = None and f = rangeFile and name = "MkIdent 20 ''somethingElse''"
       and ps = rangeParams and fbody = "[rangeOverField]"
       and key = "Some (Ident (MkIdent 44 ''_''))" and v = "MkIdent 47 ''c''" and tok = DEFINE
       and s = "SelectorExpr (Ident (MkIdent 58 ''ts'')) (MkIdent 61 ''collectables'')"
       and body = "[AssignStmt [SelectorExpr (Ident (MkIdent 80 ''c'')) (MkIdent 82 ''checked'')]
                      ASSIGN [Ident (MkIdent 92 ''true'')]]"
       and lhs = "[SelectorExpr (Ident (MkIdent 80 ''c'')) (MkIdent 82 ''checked'')]"
       and tok' = ASSIGN and rhs = "[Ident (MkIdent 92 ''true'')]"
       and target = "SelectorExpr (Ident (MkIdent 80 ''c'')) (MkIdent 82 ''checked'')"
       and li = "MkIdent 80 ''c''" and sel = "MkIdent 82 ''checked''"]
  by (simp add: evs passRange_def rangeFile_def rangeParams_def rangeOverField_def
        passLoops_def assignTargets_def targetIdent_def)


text \<open>
  Each enclosing loop reports on its own: in
  \<^verbatim>\<open>for _, c := range s { for _, c := range s { c.checked = true } }\<close> the one
  assignment lies in the body of both loops, and the run holds the same diagnostic twice.
\<close>

theorem nested_range_counterexample:
  "run passNestedRange =
     ([Diagnostic 96 (msgSliceElement ''c'' ''s''), Diagnostic 96 (msgSliceElement ''c'' ''s'')],
      Return None) \<and>
   count_list (fst (run passNestedRange)) (Diagnostic 96 (msgSliceElement ''c'' ''s'')) = 2"
  by (simp add: evs passNestedRange_def)

text \<open>
  Claim C10. Inside the body of a qualifying range loop, a left-hand side is matched
  against the loop variable by the name of its identifier alone: the check reports it if
  and only if the two names are equal, and then the diagnostic is in the output of the
  run. Nothing is asked of the objects the two identifiers denote.
\<close>

theorem range_match_is_by_name:
  assumes "run p = (ds, Return err)"
    and "f \<in> set (Files p)"
    and "FuncDecl name ps (Some fbody) \<in> set (Decls f)"
    and "NStmt (RangeStmt key (Some (Ident v)) tok s body) \<in> set (Walk_stmt (BlockStmt fbody))"
    and "isSliceOrArray (TypeOf (TypesInfo p) s)"
    and "Name v \<noteq> ''_''"
    and "NStmt (AssignStmt lhs tok' rhs) \<in> set (Walk_stmt (BlockStmt body))"
    and "target \<in> set lhs"
    and "lhsIdent target = Some li"
  shows "checkRangeLhs v s target =
           (if Name li = Name v
            then [Diagnostic (NamePos li) (msgSliceElement (Name v) (ExprString s))]
            else []) \<and>
         (Name li = Name v \<longrightarrow>
            Diagnostic (NamePos li) (msgSliceElement (Name v) (ExprString s)) \<in> set ds)"
  using range_target_reported(2) [OF assms] assms(9)
  by (simp add: checkRangeLhs_def)

text \<open>
  The theorem at
  \<^verbatim>\<open>for _, c := range s { c := other; c.checked = true }\<close>: the \<open>c\<close> of
  \<^verbatim>\<open>c.checked\<close> denotes the variable declared in the body, not the loop variable, and
  is reported.
\<close>

theorem range_match_is_by_name_witness:
  "run passShadow =
     ([Diagnostic 80 (msgSliceElement ''c'' ''s''), Diagnostic 92 (msgSliceElement ''c'' ''s'')],
      Return None) \<and>
   ObjectOf (TypesInfo passShadow) (MkIdent 63 ''c'') = Some (Var 63 ''c'' (Some tCollectable)) \<and>
   ObjectOf (TypesInfo passShadow) (MkIdent 92 ''c'') = Some (Var 80 ''c'' (Some tCollectable)) \<and>
   ObjectOf (TypesInfo passShadow) (MkIdent 92 ''c'')
     \<noteq> ObjectOf (TypesInfo passShadow) (MkIdent 63 ''c'') \<and>
   checkRangeLhs (MkIdent 63 ''c'') (Ident (MkIdent 74 ''s''))
       (SelectorExpr (Ident (MkIdent 92 ''c'')) (MkIdent 94 ''checked''))
     = [Diagnostic 92 (msgSliceElement ''c'' ''s'')] \<and>
   Diagnostic 92 (msgSliceElement ''c'' ''s'') \<in> set (fst (run passShadow))"
  using range_match_is_by_name
    [where p = passShadow
       and ds = "[Diagnostic 80 (msgSliceElement ''c'' ''s''),
                  Diagnostic 92 (msgSliceElement ''c'' ''s'')]"
       and err = None and f = shadowFile and name = "MkIdent 20 ''shadow''"
       and ps = shadowParams and fbody = "[shadowLoop]"
       and key = "Some (Ident (MkIdent 60 ''_''))" and v = "MkIdent 63 ''c''" and tok = DEFINE
       and s = "Ident (MkIdent 74 ''s'')"
       and body = "[AssignStmt [Ident (MkIdent 80 ''c'')] DEFINE [Ident (MkIdent 85 ''other'')],
                    AssignStmt [SelectorExpr (Ident (MkIdent 92 ''c'')) (MkIdent 94 ''checked'')]
                      ASSIGN [Ident (MkIdent 104 ''true'')]]"
       and lhs = "[SelectorExpr (Ident (MkIdent 92 ''c'')) (MkIdent 94 ''checked'')]"
       and tok' = ASSIGN and rhs = "[Ident (MkIdent 104 ''true'')]"
       and target = "SelectorExpr (Ident (MkIdent 92 ''c'')) (MkIdent 94 ''checked'')"
       and li = "MkIdent 92 ''c''"]
  by (simp add: evs passShadow_def shadowFile_def shadowParams_def shadowLoop_def)

text \<open>
  Claim C6 says that the message of the range-copy check suggests
  \<^verbatim>\<open>'<sequence-expr>[i] = ...'\<close>, with nothing before the sequence expression. The
  format string of the code has \<^verbatim>\<open>'&&%s[i] = ...'\<close>: on
  \<^verbatim>\<open>for _, c := range ts.collectables { c.checked = true }\<close> the run reports the
  message below, whose suggestion starts with \<^verbatim>\<open>&&\<close>.
\<close>

theorem range_message_has_ampersands:
  "run passRange =
     ([Diagnostic 80
         (''modification to slice element '' @ [CHR 0x27] @ ''c'' @ [CHR 0x27]
            @ '' is discarded; use index to modify directly, e.g., '' @ [CHR 0x27]
            @ ''&&ts.collectables[i] = ...'' @ [CHR 0x27])],
      Return None)"
  by (simp add: evs passRange_def rangeFile_def rangeParams_def rangeOverField_def
        msgSliceElement_def)

text \<open>
  Claim C7 says that a range over an expression of a defined type whose underlying type
  is a slice or an array is treated as a range over a slice or an array.
  \<^verbatim>\<open>isSliceOrArray\<close> tests the type of the expression without taking
  \<^verbatim>\<open>Underlying()\<close>: with \<^verbatim>\<open>type Items []Collectable\<close>, the loop
  \<^verbatim>\<open>for _, c := range items.all { c.checked = true }\<close> over a field of type
  \<^verbatim>\<open>Items\<close> reports nothing, and the same loop over a field of type
  \<^verbatim>\<open>[]Collectable\<close> reports the assignment.
\<close>

theorem named_slice_range_not_reported:
  "Underlying (Named ''a.Items'' (Slice tCollectable)) = Slice tCollectable \<and>
   run (passItems (Named ''a.Items'' (Slice tCollectable))) = ([], Return None) \<and>
   run (passItems (Slice tCollectable)) =
     ([Diagnostic 80 (msgSliceElement ''c'' ''items.all'')], Return None)"
  by (simp add: evs passItems_def rangeOverItems_def)

section \<open>Case 3: the address-of-copy check\<close>

lemma addrIdent_root:
  "x = Ident v \<or> x = SelectorExpr (Ident v) sel \<Longrightarrow>
   addrIdent info x = Some (v, TypeOf info (Ident v))"
  by auto

lemma address_argument_core:
  assumes "run p = (ds, Return err)"
    and "f \<in> set (Files p)"
    and "FuncDecl name ps (Some body) \<in> set (Decls f)"
    and "NExpr (CallExpr callee args) \<in> set (Walk_stmt (BlockStmt body))"
    and "UnaryExpr AND x \<in> set args"
    and "x = Ident v \<or> x = SelectorExpr (Ident v) sel"
    and "TypeOf (TypesInfo p) (Ident v) = Some t"
  shows "Diagnostic (NamePos v)
           (case Underlying t of
              Slice e \<Rightarrow> msgAddrSlice (Name v) (callFunName callee)
            | Array n e \<Rightarrow> msgAddrSlice (Name v) (callFunName callee)
            | Struct fs \<Rightarrow> msgAddrStruct (Name v) (callFunName callee)
            | u \<Rightarrow> msgAddrOther (Name v) (TypeString u) (callFunName callee))
           \<in> set ds"
proof -
  let ?info = "TypesInfo p"
  let ?d = "reportAddr v (callFunName callee) (Underlying t)"
  obtain table where table: "paramNames ?info ps = Some table"
    using run_reported [OF assms(1,2,3)] by blast
  have "checkArg ?info (callFunName callee) (UnaryExpr AND x) = [?d]"
    using addrIdent_root [OF assms(6), of ?info] assms(7) by (simp add: checkArg_AND)
  then have "?d \<in> set (case3 ?info (NExpr (CallExpr callee args)))"
    using assms(5) by force
  then have "?d \<in> set (bodyVisit table ?info (NExpr (CallExpr callee args)))"
    by (simp add: bodyVisit_def)
  then have "?d \<in> set ds"
    by (rule run_body_reported [OF assms(1,2,3) table assms(4)])
  moreover have "?d = Diagnostic (NamePos v)
           (case Underlying t of
              Slice e \<Rightarrow> msgAddrSlice (Name v) (callFunName callee)
            | Array n e \<Rightarrow> msgAddrSlice (Name v) (callFunName callee)
            | Struct fs \<Rightarrow> msgAddrStruct (Name v) (callFunName callee)
            | u \<Rightarrow> msgAddrOther (Name v) (TypeString u) (callFunName callee))"
    by (cases "Underlying t") simp_all
  ultimately show ?thesis by simp
qed

text \<open>
  Claim C3, as the code has it. In a run that returns, for every call in a function body
  with an argument \<^verbatim>\<open>&v\<close> or \<^verbatim>\<open>&v.field\<close>, where the operand of \<^verbatim>\<open>&\<close> is the identifier
  \<open>v\<close> or a one-level field access on the identifier \<open>v\<close> and the type information has a
  type for \<open>v\<close>, the output holds a diagnostic at \<open>v\<close> that names \<open>v\<close> and the called
  function (the name of an identifier, the selected name of a qualified call). Its text
  follows the underlying type of \<open>v\<close>: for a slice or an array the message that suggests
  \<^verbatim>\<open>'&v[i]'\<close>, for a struct the message that suggests \<^verbatim>\<open>'&v'\<close>, and for any other type
  the generic message that names the type.
\<close>

theorem address_argument_reported:
  assumes "run p = (ds, Return err)"
    and "f \<in> set (Files p)"
    and "FuncDecl name ps (Some body) \<in> set (Decls f)"
    and "NExpr (CallExpr callee args) \<in> set (Walk_stmt (BlockStmt body))"
    and "UnaryExpr AND x \<in> set args"
    and "x = Ident v \<or> x = SelectorExpr (Ident v) sel"
    and "TypeOf (TypesInfo p) (Ident v) = Some t"
  shows "Diagnostic (NamePos v)
           (case Underlying t of
              Slice e \<Rightarrow>
                ''passing address of slice element '' @ [CHR 0x27] @ Name v @ [CHR 0x27] @ '' to ''
                  @ [CHR 0x27] @ callFunName callee @ [CHR 0x27]
                  @ '' will modify a copy; if you want to modify the original, pass a pointer to the element, e.g., ''
                  @ [CHR 0x27] @ ''&'' @ Name v @ ''[i]'' @ [CHR 0x27]
            | Array n e \<Rightarrow>
                ''passing address of slice element '' @ [CHR 0x27] @ Name v @ [CHR 0x27] @ '' to ''
                  @ [CHR 0x27] @ callFunName callee @ [CHR 0x27]
                  @ '' will modify a copy; if you want to modify the original, pass a pointer to the element, e.g., ''
                  @ [CHR 0x27] @ ''&'' @ Name v @ ''[i]'' @ [CHR 0x27]
            | Struct fs \<Rightarrow>
                ''passing address of struct field '' @ [CHR 0x27] @ Name v @ [CHR 0x27] @ '' to ''
                  @ [CHR 0x27] @ callFunName callee @ [CHR 0x27]
                  @ '' will modify a copy; if you want to modify the original, pass a pointer to the struct, e.g., ''
                  @ [CHR 0x27] @ ''&'' @ Name v @ [CHR 0x27]
            | u \<Rightarrow>
                ''passing address of '' @ [CHR 0x27] @ Name v @ [CHR 0x27] @ '' (type ''
                  @ TypeString u @ '') to '' @ [CHR 0x27] @ callFunName callee @ [CHR 0x27]
                  @ '' is passing a copy; if you want to modify the original, pass a pointer to it, e.g., ''
                  @ [CHR 0x27] @ ''&'' @ Name v @ ''[i]'' @ [CHR 0x27])
           \<in> set ds \<and>
         callFunName (Ident fn) = Name fn \<and>
         callFunName (SelectorExpr q fsel) = Name fsel"
  using address_argument_core [OF assms]
  unfolding msgAddrSlice_def msgAddrStruct_def msgAddrOther_def
  by simp

text \<open>
  The theorem at \<^verbatim>\<open>for _, c := range ts.collectables { SetChecked(&c, true) }\<close>,
  where \<open>c\<close> has the struct type \<^verbatim>\<open>Collectable\<close>.
\<close>

theorem address_argument_reported_witness:
  "run passAddress = ([Diagnostic 100 (msgAddrStruct ''c'' ''SetChecked'')], Return None) \<and>
   TypeOf (TypesInfo passAddress) (Ident (MkIdent 100 ''c'')) = Some tCollectable \<and>
   Underlying tCollectable = Struct [StructField ''checked'' (Basic ''bool'')] \<and>
   Diagnostic 100
     (''passing address of struct field '' @ [CHR 0x27] @ ''c'' @ [CHR 0x27] @ '' to ''
        @ [CHR 0x27] @ ''SetChecked'' @ [CHR 0x27]
        @ '' will modify a copy; if you want to modify the original, pass a pointer to the struct, e.g., ''
        @ [CHR 0x27] @ ''&'' @ ''c'' @ [CHR 0x27])
     \<in> set (fst (run passAddress))"
  using address_argument_reported
    [where p = passAddress and ds = "[Diagnostic 100 (msgAddrStruct ''c'' ''SetChecked'')]"
       and err = None and f = addressFile and name = "MkIdent 20 ''modifySlice''"
       and ps = addressParams and body = addressBody
       and callee = "Ident (MkIdent 88 ''SetChecked'')"
       and args = "[UnaryExpr AND (Ident (MkIdent 100 ''c'')), Ident (MkIdent 103 ''true'')]"
       and x = "Ident (MkIdent 100 ''c'')" and v = "MkIdent 100 ''c''"
       and sel = "MkIdent 0 ''f''" and t = tCollectable]
  by (simp add: evs passAddress_def addressFile_def addressParams_def addressBody_def
        tCollectable_def msgAddrStruct_def)

text \<open>
  The address of a deeper field access is rooted at the variable too, and is not reported:
  the switch takes the operand of a selector only when it is an identifier. In
  \<^verbatim>\<open>func deepAddr(o Outer) { g(&o.inner.Name) }\<close> the variable \<open>o\<close> has a struct type
  and the run reports nothing.
\<close>

theorem deep_address_counterexample:
  "TypeOf (TypesInfo passDeepAddress) (Ident (MkIdent 48 ''o'')) = Some tOuter \<and>
   Underlying tOuter = Struct [StructField ''inner'' tTestStruct] \<and>
   addrIdent (TypesInfo passDeepAddress)
     (SelectorExpr (SelectorExpr (Ident (MkIdent 48 ''o'')) (MkIdent 50 ''inner''))
        (MkIdent 56 ''Name'')) = None \<and>
   run passDeepAddress = ([], Return None)"
  by (simp add: evs passDeepAddress_def tOuter_def)


section \<open>The program walker\<close>

text \<open>The body of a function literal is part of the walk of whatever contains it.\<close>

lemma FuncLit_body_walked:
  "NExpr (FuncLit ps b) \<in> set (Walk_expr e) \<Longrightarrow> set (Walk_stmts b) \<subseteq> set (Walk_expr e)"
  "NExpr (FuncLit ps b) \<in> set (Walk_exprs es) \<Longrightarrow> set (Walk_stmts b) \<subseteq> set (Walk_exprs es)"
  "NExpr (FuncLit ps b) \<in> set (Walk_field fl) \<Longrightarrow> set (Walk_stmts b) \<subseteq> set (Walk_field fl)"
  "NExpr (FuncLit ps b) \<in> set (Walk_fields fls) \<Longrightarrow> set (Walk_stmts b) \<subseteq> set (Walk_fields fls)"
  "NExpr (FuncLit ps b) \<in> set (Walk_stmt s) \<Longrightarrow> set (Walk_stmts b) \<subseteq> set (Walk_stmt s)"
  "NExpr (FuncLit ps b) \<in> set (Walk_stmts ss) \<Longrightarrow> set (Walk_stmts b) \<subseteq> set (Walk_stmts ss)"
  by (induction e and es and fl and fls and s and ss
      rule: Walk_expr_Walk_exprs_Walk_field_Walk_fields_Walk_stmt_Walk_stmts.induct)
     (auto split: option.splits)

lemma FuncLit_block_walked:
  "NExpr (FuncLit ps b) \<in> set (Walk_expr e) \<Longrightarrow> NStmt (BlockStmt b) \<in> set (Walk_expr e)"
  "NExpr (FuncLit ps b) \<in> set (Walk_exprs es) \<Longrightarrow> NStmt (BlockStmt b) \<in> set (Walk_exprs es)"
  "NExpr (FuncLit ps b) \<in> set (Walk_field fl) \<Longrightarrow> NStmt (BlockStmt b) \<in> set (Walk_field fl)"
  "NExpr (FuncLit ps b) \<in> set (Walk_fields fls) \<Longrightarrow> NStmt (BlockStmt b) \<in> set (Walk_fields fls)"
  "NExpr (FuncLit ps b) \<in> set (Walk_stmt s) \<Longrightarrow> NStmt (BlockStmt b) \<in> set (Walk_stmt s)"
  "NExpr (FuncLit ps b) \<in> set (Walk_stmts ss) \<Longrightarrow> NStmt (BlockStmt b) \<in> set (Walk_stmts ss)"
  by (induction e and es and fl and fls and s and ss
      rule: Walk_expr_Walk_exprs_Walk_field_Walk_fields_Walk_stmt_Walk_stmts.induct)
     (auto split: option.splits)

text \<open>
  Claim C8, as the code has it. In a run that returns, the output is what the three
  detectors report for the function declarations of the files' declaration lists, each
  declaration once and in order, each with the table of its own parameters and over its
  own body, and nothing else: a function literal gets no table of its own. The body of a
  function literal is part of the body of the declaration that contains it, and what the
  detectors report at its nodes with that declaration's table is in the output.
\<close>

theorem function_literals_get_no_table:
  assumes "run p = (ds, Return err)"
  shows "ds = concat (map (declDiags (TypesInfo p)) (concat (map Decls (Files p)))) \<and>
    (\<forall>f \<in> set (Files p). \<forall>name ps body. FuncDecl name ps body \<in> set (Decls f) \<longrightarrow>
       (\<exists>table ss.
          paramNames (TypesInfo p) ps = Some table \<and> body = Some ss \<and>
          declDiags (TypesInfo p) (FuncDecl name ps body)
            = concat (map (bodyVisit table (TypesInfo p)) (Walk_stmt (BlockStmt ss))) \<and>
          (\<forall>lps b. NExpr (FuncLit lps b) \<in> set (Walk_stmt (BlockStmt ss)) \<longrightarrow>
             fileVisit (TypesInfo p) (NExpr (FuncLit lps b)) = Some [] \<and>
             (\<forall>n \<in> set (Walk_stmt (BlockStmt b)).
                n \<in> set (Walk_stmt (BlockStmt ss)) \<and>
                set (bodyVisit table (TypesInfo p) n) \<subseteq> set ds))))"
proof -
  let ?info = "TypesInfo p"
  have out: "ds = concat (map (declDiags ?info) (concat (map Decls (Files p))))"
    by (rule run_output(1) [OF assms])
  have decl: "\<exists>table ss.
          paramNames ?info ps = Some table \<and> body = Some ss \<and>
          declDiags ?info (FuncDecl name ps body)
            = concat (map (bodyVisit table ?info) (Walk_stmt (BlockStmt ss))) \<and>
          (\<forall>lps b. NExpr (FuncLit lps b) \<in> set (Walk_stmt (BlockStmt ss)) \<longrightarrow>
             fileVisit ?info (NExpr (FuncLit lps b)) = Some [] \<and>
             (\<forall>n \<in> set (Walk_stmt (BlockStmt b)).
                n \<in> set (Walk_stmt (BlockStmt ss)) \<and>
                set (bodyVisit table ?info n) \<subseteq> set ds))"
    if f: "f \<in> set (Files p)" and d: "FuncDecl name ps body \<in> set (Decls f)"
    for f name ps body
  proof -
    have "FuncDecl name ps body \<in> set (concat (map Decls (Files p)))"
      using f d by auto
    from run_output(2) [OF assms this] obtain xs where
      "fileVisit ?info (NDecl (FuncDecl name ps body)) = Some xs"
      by blast
    from fileVisit_complete [OF this] obtain table ss where
      table: "paramNames ?info ps = Some table" and body: "body = Some ss"
      by blast
    have diags: "declDiags ?info (FuncDecl name ps body)
            = concat (map (bodyVisit table ?info) (Walk_stmt (BlockStmt ss)))"
      by (simp add: table body del: Walk_expr.simps Walk_stmt.simps)
    have lit: "n \<in> set (Walk_stmt (BlockStmt ss)) \<and> set (bodyVisit table ?info n) \<subseteq> set ds"
      if "NExpr (FuncLit lps b) \<in> set (Walk_stmt (BlockStmt ss))"
        and n: "n \<in> set (Walk_stmt (BlockStmt b))"
      for lps b n
    proof -
      have "set (Walk_stmt (BlockStmt b)) \<subseteq> set (Walk_stmt (BlockStmt ss))"
        using FuncLit_body_walked(5) [OF that(1)] FuncLit_block_walked(5) [OF that(1)] by simp
      with n have in_body: "n \<in> set (Walk_stmt (BlockStmt ss))" by blast
      have "set (bodyVisit table ?info n) \<subseteq> set ds"
        using run_body_reported [OF assms f d [unfolded body] table in_body] by blast
      with in_body show ?thesis by simp
    qed
    have silent: "fileVisit ?info (NExpr (FuncLit lps b)) = Some []" for lps b
      by simp
    from lit silent have "\<forall>lps b. NExpr (FuncLit lps b) \<in> set (Walk_stmt (BlockStmt ss)) \<longrightarrow>
             fileVisit ?info (NExpr (FuncLit lps b)) = Some [] \<and>
             (\<forall>n \<in> set (Walk_stmt (BlockStmt b)).
                n \<in> set (Walk_stmt (BlockStmt ss)) \<and>
                set (bodyVisit table ?info n) \<subseteq> set ds)"
      by blast
    with table body diags show ?thesis
      by blast
  qed
  from out decl show ?thesis by blast
qed

text \<open>
  The theorem at \<^verbatim>\<open>func outer() { g := func(p TestStruct) { p.Name = 1 } }\<close>: the
  one declaration has no parameters, and the assignment in the literal is checked against
  its empty table.
\<close>

theorem function_literals_get_no_table_witness:
  "run passClosure = ([], Return None) \<and>
   fst (run passClosure)
     = concat (map (declDiags (TypesInfo passClosure)) (concat (map Decls (Files passClosure)))) \<and>
   paramNames (TypesInfo passClosure) [] = Some Map.empty \<and>
   NExpr (FuncLit closureParams closureBody) \<in> set (Walk_stmt (BlockStmt outerBody)) \<and>
   set (Walk_stmt (BlockStmt closureBody)) \<subseteq> set (Walk_stmt (BlockStmt outerBody)) \<and>
   concat (map (bodyVisit Map.empty (TypesInfo passClosure)) (Walk_stmt (BlockStmt closureBody))) = []"
  using function_literals_get_no_table [of passClosure "[]" None]
  by (simp add: evs passClosure_def closureFile_def outerBody_def closureParams_def closureBody_def)


text \<open>
  In that program the parameter \<open>p\<close> of the function literal is passed by value. With a
  parameter table built from the literal's own parameters, its body would be reported
  once; the run reports nothing.
\<close>

theorem closure_counterexample:
  "paramNames (TypesInfo passClosure) closureParams = Some [''p'' \<mapsto> Some tTestStruct] \<and>
   concat (map (bodyVisit [''p'' \<mapsto> Some tTestStruct] (TypesInfo passClosure))
             (Walk_stmt (BlockStmt closureBody)))
     = [Diagnostic 60 (msgValueParam ''p'')] \<and>
   run passClosure = ([], Return None)"
  by (simp add: evs passClosure_def closureFile_def outerBody_def closureParams_def
        closureBody_def tTestStruct_def)

section \<open>Errors\<close>

text \<open>
  Claim C9, as the code has it. \<^verbatim>\<open>run\<close> never returns an error. When the type
  information has no type for an identifier whose address is passed to a call, or for the
  expression a range loop iterates, the construct is skipped: nothing is reported for it.
\<close>

theorem run_never_returns_error:
  "snd (run p) \<noteq> Return (Some err) \<and>
   (TypeOf info (Ident v) = None \<longrightarrow>
      checkArg info funName (UnaryExpr AND (Ident v)) = [] \<and>
      checkArg info funName (UnaryExpr AND (SelectorExpr (Ident v) sel)) = []) \<and>
   (TypeOf info x = None \<longrightarrow> case2 info (NStmt (RangeStmt key val tok x body)) = [])"
proof -
  have "snd (run p) \<noteq> Return (Some err)"
    by (simp add: run_def split: prod.splits)
  moreover have "TypeOf info x = None \<Longrightarrow>
      case2 info (NStmt (RangeStmt key val tok x body)) = []"
    by (cases "(info, NStmt (RangeStmt key val tok x body))" rule: case2.cases)
       (simp_all add: isSliceOrArray_def del: Walk_expr.simps)
  ultimately show ?thesis by simp
qed

text \<open>The theorem at \<^verbatim>\<open>func broken() { g(&v) }\<close>, where nothing has a type.\<close>

theorem run_never_returns_error_witness:
  "snd (run passUnresolved) \<noteq> Return (Some ''unresolved type'') \<and>
   TypeOf (TypesInfo passUnresolved) (Ident (MkIdent 43 ''v'')) = None \<and>
   checkArg (TypesInfo passUnresolved) ''g'' (UnaryExpr AND (Ident (MkIdent 43 ''v''))) = [] \<and>
   case2 (TypesInfo passUnresolved)
     (NStmt (RangeStmt None (Some (Ident (MkIdent 50 ''c''))) DEFINE (Ident (MkIdent 43 ''v'')) []))
     = []"
  using run_never_returns_error [of passUnresolved "''unresolved type''" "TypesInfo passUnresolved"
      "MkIdent 43 ''v''" "''g''" "MkIdent 0 ''f''" "Ident (MkIdent 43 ''v'')"
      None "Some (Ident (MkIdent 50 ''c''))" DEFINE "[]"]
  by (simp add: TypeOf_def ObjectOf_def passUnresolved_def)

text \<open>
  In \<^verbatim>\<open>func broken() { g(&v) }\<close> the type of \<open>v\<close> cannot be resolved; the run
  reports nothing and returns a nil error.
\<close>

theorem unresolved_type_counterexample:
  "TypeOf (TypesInfo passUnresolved) (Ident (MkIdent 43 ''v'')) = None \<and>
   run passUnresolved = ([], Return None)"
  by (simp add: evs passUnresolved_def)

end
